theory Spec2Isabelle
  imports Main
begin

section \<open>Job-state strings\<close>

text \<open>
  Job states are the strings of the remote system (\<^verbatim>\<open>job["state"]\<close>), such as
  \<^verbatim>\<open>RUNNING\<close> or \<^verbatim>\<open>BACKFILL_RUNNING\<close>. A character of a \<open>string\<close> stands for the
  Unicode code point of the same number, so the strings modelled are Python's strings of
  code points below 256; states with a code point from 256 on are outside the model.

  On these characters \<^verbatim>\<open>str.lower\<close> moves A-Z and the capital letters 192-222 (but
  not the sign 215) up by 32 and leaves the rest. \<^verbatim>\<open>str.upper\<close> moves a-z and the small
  letters 224-254 (but not the sign 247) down by 32, turns the sharp s (223) into the two
  letters SS, and sends 181 and 255 to the code points 924 and 376, which are no
  characters of a \<open>string\<close>: its result is a list of code points.
\<close>

definition lower_char :: "char \<Rightarrow> char" where
  "lower_char c =
     (let n = (of_char c :: nat) in
      if (65 \<le> n \<and> n \<le> 90) \<or> (192 \<le> n \<and> n \<le> 222 \<and> n \<noteq> 215) then char_of (n + 32)
      else c)"

definition upper_char :: "char \<Rightarrow> nat list" where
  "upper_char c =
     (let n = (of_char c :: nat) in
      if 97 \<le> n \<and> n \<le> 122 then [n - 32]
      else if n = 181 then [924]
      else if n = 223 then [83, 83]
      else if 224 \<le> n \<and> n \<le> 254 \<and> n \<noteq> 247 then [n - 32]
      else if n = 255 then [376]
      else [n])"

definition str_lower :: "string \<Rightarrow> string" where
  "str_lower s = map lower_char s"

definition str_upper :: "string \<Rightarrow> nat list" where
  "str_upper s = concat (map upper_char s)"

text \<open>The code points of a literal of the source.\<close>

definition code_points :: "string \<Rightarrow> nat list" where
  "code_points s = map of_char s"

text \<open>\<^verbatim>\<open>s.endswith(suf)\<close>\<close>

definition endswith :: "'a list \<Rightarrow> 'a list \<Rightarrow> bool" where
  "endswith s suf = (length suf \<le> length s \<and> drop (length s - length suf) s = suf)"

text \<open>
  The tests of the source, as written there: lines 93, 105-107 and 111 lower the state,
  lines 137 and 150 upper it.
\<close>

definition running_lower :: "string \<Rightarrow> bool" where
  "running_lower st = endswith (str_lower st) ''running''"

definition cancelled_lower :: "string \<Rightarrow> bool" where
  "cancelled_lower st = endswith (str_lower st) ''manually_cancelled''"

definition success_lower :: "string \<Rightarrow> bool" where
  "success_lower st = endswith (str_lower st) ''success''"

definition running_upper :: "string \<Rightarrow> bool" where
  "running_upper st = endswith (str_upper st) (code_points ''RUNNING'')"

definition success_upper :: "string \<Rightarrow> bool" where
  "success_upper st = endswith (str_upper st) (code_points ''SUCCESS'')"

text \<open>
  The specification's wording, independent of the two conversions: two characters are the
  same ignoring case when they are equal or are the capital and the small form of one
  letter, and a string ends, ignoring case, in a word when its last characters are
  pairwise the same as the word's ignoring case.
\<close>

definition is_capital :: "char \<Rightarrow> bool" where
  "is_capital c = (65 \<le> (of_char c :: nat) \<and> (of_char c :: nat) \<le> 90)"

definition same_ignoring_case :: "char \<Rightarrow> char \<Rightarrow> bool" where
  "same_ignoring_case a b =
     (a = b \<or> (is_capital a \<and> (of_char b :: nat) = of_char a + 32)
            \<or> (is_capital b \<and> (of_char a :: nat) = of_char b + 32))"

definition ends_ignoring_case :: "string \<Rightarrow> string \<Rightarrow> bool" where
  "ends_ignoring_case s w =
     (length w \<le> length s \<and> list_all2 same_ignoring_case (drop (length s - length w) s) w)"

text \<open>A string of ASCII characters only.\<close>

definition is_ascii :: "string \<Rightarrow> bool" where
  "is_ascii s = list_all (\<lambda>c. (of_char c :: nat) < 128) s"

section \<open>Data\<close>

text \<open>
  A job is the dictionary the client returns (\<^verbatim>\<open>job["id"]\<close>, \<^verbatim>\<open>job["state"]\<close>); the key
  \<^verbatim>\<open>"attempts"\<close> may be absent (\<open>None\<close>) or hold a list, which may be empty.
\<close>

record attempt =
  attempt_state :: string
  run_url :: string

record job =
  job_ident :: string
  job_state :: string
  attempts :: "attempt list option"

text \<open>\<^verbatim>\<open>df_info["df_path"]\<close> and \<^verbatim>\<open>df_info["signed_url_for_df_upload"]\<close>\<close>

record df_info =
  df_path :: string
  signed_url_for_df_upload :: string

text \<open>
  What the operator can raise: \<^verbatim>\<open>attempts[-1]\<close> on an empty list, the \<^verbatim>\<open>Exception\<close> of
  lines 153-155, whose message is built from the final state and the final job record, and
  whatever a collaborator (the hook, the upload, the generator) raises, which no
  \<^verbatim>\<open>try\<close> of the operator catches.
\<close>

datatype error =
    IndexError
  | Final_state_exception string job
  | Collaborator_error string

datatype 'a res = Returns 'a | Raises error | Out_of_fuel

text \<open>The messages logged, with the values they interpolate.\<close>

datatype log_message =
    Existing_job_found job
  | Job_running_cancelling
  | Waiting_for_manually_cancelled
  | Overwriting_existing_success
  | Existing_success_exiting
  | Latest_attempt nat string string
  | No_attempt_launched_yet
  | Attempting_to_kill string
  | Successfully_killed string
  | No_job_started

text \<open>
  Every call that leaves the operator is recorded with its arguments and its result, in
  the order the calls are made: the trace is what a test double of the client observes.
\<close>

datatype 'd event =
    Find_job string string bool bool string string string "string + job option"
  | Cancel_job string string string "string + unit"
  | Get_job string string string "string + job"
  | Submit_job string string bool bool string string bool bool "string + job"
  | Get_dataframe_info string string "string + df_info"
  | Df_generator "string + 'd"
  | Upload_df string 'd "string + unit"
  | Ingest_dataframe string string string "string + job"
  | Sleep nat
  | Log log_message

text \<open>
  \<^verbatim>\<open>TectonHook\<close> and \<^verbatim>\<open>upload_df_pandas\<close> are imported by the operator and are not part of
  it: they are parameters here, and the hook is taken as already created
  (\<^verbatim>\<open>TectonHook.create\<close>). Each operation runs on the state \<open>'c\<close> of the remote
  system and either raises (\<open>Inl\<close>) or returns (\<open>Inr\<close>). The two submissions and
  \<^verbatim>\<open>get_materialization_job\<close> return the response's \<^verbatim>\<open>["job"]\<close>.
\<close>

record ('c, 'd) hook =
  find_materialization_job ::
    "string \<Rightarrow> string \<Rightarrow> bool \<Rightarrow> bool \<Rightarrow> string \<Rightarrow> string \<Rightarrow> string \<Rightarrow> 'c
       \<Rightarrow> (string + job option) \<times> 'c"
  cancel_materialization_job :: "string \<Rightarrow> string \<Rightarrow> string \<Rightarrow> 'c \<Rightarrow> (string + unit) \<times> 'c"
  get_materialization_job :: "string \<Rightarrow> string \<Rightarrow> string \<Rightarrow> 'c \<Rightarrow> (string + job) \<times> 'c"
  submit_materialization_job ::
    "string \<Rightarrow> string \<Rightarrow> bool \<Rightarrow> bool \<Rightarrow> string \<Rightarrow> string \<Rightarrow> bool \<Rightarrow> bool \<Rightarrow> 'c
       \<Rightarrow> (string + job) \<times> 'c"
  get_dataframe_info :: "string \<Rightarrow> string \<Rightarrow> 'c \<Rightarrow> (string + df_info) \<times> 'c"
  ingest_dataframe :: "string \<Rightarrow> string \<Rightarrow> string \<Rightarrow> 'c \<Rightarrow> (string + job) \<times> 'c"
  upload_df_pandas :: "string \<Rightarrow> 'd \<Rightarrow> 'c \<Rightarrow> (string + unit) \<times> 'c"

text \<open>
  The operator's fields as \<^verbatim>\<open>__init__\<close> sets them. \<^verbatim>\<open>df_generator\<close> is \<open>None\<close> or a
  callable, which runs in the same outside world as the client.
\<close>

record ('c, 'd) operator =
  workspace :: string
  feature_view :: string
  online :: bool
  offline :: bool
  start_time :: string
  end_time :: string
  allow_overwrite :: bool
  df_generator :: "('c \<Rightarrow> (string + 'd) \<times> 'c) option"

text \<open>
  What a run changes: the remote system, the trace of calls, and \<^verbatim>\<open>self.job_id\<close>, the
  only field of the operator assigned after construction (\<open>None\<close> until line 133).
\<close>

record ('c, 'd) state =
  client :: 'c
  trace :: "'d event list"
  job_id :: "string option"

section \<open>Effects\<close>

definition emit :: "'d event \<Rightarrow> ('c, 'd) state \<Rightarrow> ('c, 'd) state" where
  "emit e s = s\<lparr>trace := trace s @ [e]\<rparr>"

text \<open>A call of a collaborator: run it, record it, return its value or raise its error.\<close>

definition call ::
  "('c \<Rightarrow> (string + 'a) \<times> 'c) \<Rightarrow> ((string + 'a) \<Rightarrow> 'd event) \<Rightarrow> ('c, 'd) state
     \<Rightarrow> 'a res \<times> ('c, 'd) state" where
  "call f ev s =
     (case f (client s) of (r, c') \<Rightarrow>
        ((case r of Inl e \<Rightarrow> Raises (Collaborator_error e) | Inr a \<Rightarrow> Returns a),
         emit (ev r) (s\<lparr>client := c'\<rparr>)))"

definition logging_info :: "log_message \<Rightarrow> ('c, 'd) state \<Rightarrow> unit res \<times> ('c, 'd) state" where
  "logging_info m s = (Returns (), emit (Log m) s)"

definition time_sleep :: "nat \<Rightarrow> ('c, 'd) state \<Rightarrow> unit res \<times> ('c, 'd) state" where
  "time_sleep n s = (Returns (), emit (Sleep n) s)"

text \<open>Sequencing: a raise or an exhausted fuel stops the rest.\<close>

definition and_then ::
  "('s \<Rightarrow> 'a res \<times> 's) \<Rightarrow> ('a \<Rightarrow> 's \<Rightarrow> 'b res \<times> 's) \<Rightarrow> 's \<Rightarrow> 'b res \<times> 's" where
  "and_then m f s =
     (case m s of
        (Returns a, s') \<Rightarrow> f a s'
      | (Raises e, s') \<Rightarrow> (Raises e, s')
      | (Out_of_fuel, s') \<Rightarrow> (Out_of_fuel, s'))"

section \<open>The operator\<close>

text \<open>
  Lines 100-110: the loop's test fetches the job; the body logs and sleeps. The fuel
  bounds the number of times the body runs; a loop that would run its body once more
  gives \<open>Out_of_fuel\<close>.
\<close>

fun wait_for_cancel ::
  "nat \<Rightarrow> ('c, 'd) operator \<Rightarrow> ('c, 'd) hook \<Rightarrow> string \<Rightarrow> ('c, 'd) state
     \<Rightarrow> unit res \<times> ('c, 'd) state" where
  "wait_for_cancel 0 self h jid s =
     and_then
       (call (get_materialization_job h (workspace self) (feature_view self) jid)
          (Get_job (workspace self) (feature_view self) jid))
       (\<lambda>j s'. if \<not> cancelled_lower (job_state j) then (Out_of_fuel, s') else (Returns (), s')) s"
| "wait_for_cancel (Suc n) self h jid s =
     and_then
       (call (get_materialization_job h (workspace self) (feature_view self) jid)
          (Get_job (workspace self) (feature_view self) jid))
       (\<lambda>j. if \<not> cancelled_lower (job_state j)
            then and_then (logging_info Waiting_for_manually_cancelled)
                   (\<lambda>_. and_then (time_sleep 60) (\<lambda>_. wait_for_cancel n self h jid))
            else Pair (Returns ())) s"

text \<open>
  Lines 91-118, the decision on the job found. \<open>Returns True\<close>: control reaches line
  120; \<open>Returns False\<close>: the \<^verbatim>\<open>return\<close> of line 118.
\<close>

definition existing_job ::
  "nat \<Rightarrow> ('c, 'd) operator \<Rightarrow> ('c, 'd) hook \<Rightarrow> job option \<Rightarrow> ('c, 'd) state
     \<Rightarrow> bool res \<times> ('c, 'd) state" where
  "existing_job fuel self h found =
     (case found of
        None \<Rightarrow> Pair (Returns True)
      | Some j \<Rightarrow>
          and_then (logging_info (Existing_job_found j))
            (\<lambda>_. if running_lower (job_state j) then
                   and_then (logging_info Job_running_cancelling)
                     (\<lambda>_. and_then
                            (call (cancel_materialization_job h (workspace self)
                                     (feature_view self) (job_ident j))
                               (Cancel_job (workspace self) (feature_view self) (job_ident j)))
                            (\<lambda>_. and_then (wait_for_cancel fuel self h (job_ident j))
                                   (\<lambda>_. Pair (Returns True))))
                 else if success_lower (job_state j) then
                   (if allow_overwrite self then
                      and_then (logging_info Overwriting_existing_success)
                        (\<lambda>_. Pair (Returns True))
                    else
                      and_then (logging_info Existing_success_exiting)
                        (\<lambda>_. Pair (Returns False)))
                 else Pair (Returns True)))"

text \<open>Lines 157-166.\<close>

definition ingest_feature_table_with_pandas_df ::
  "('c, 'd) operator \<Rightarrow> ('c, 'd) hook \<Rightarrow> ('c \<Rightarrow> (string + 'd) \<times> 'c) \<Rightarrow> ('c, 'd) state
     \<Rightarrow> job res \<times> ('c, 'd) state" where
  "ingest_feature_table_with_pandas_df self h gen =
     and_then
       (call (get_dataframe_info h (feature_view self) (workspace self))
          (Get_dataframe_info (feature_view self) (workspace self)))
       (\<lambda>info. and_then (call gen Df_generator)
          (\<lambda>df. and_then
             (call (upload_df_pandas h (signed_url_for_df_upload info) df)
                (Upload_df (signed_url_for_df_upload info) df))
             (\<lambda>_. call (ingest_dataframe h (feature_view self) (df_path info) (workspace self))
                    (Ingest_dataframe (feature_view self) (df_path info) (workspace self)))))"

text \<open>
  Lines 120-133: the submission and the assignment of \<^verbatim>\<open>self.job_id\<close>, whose new value
  is also returned, for the reads of lines 135 and 148.
\<close>

definition submission ::
  "('c, 'd) operator \<Rightarrow> ('c, 'd) hook \<Rightarrow> ('c, 'd) state \<Rightarrow> string res \<times> ('c, 'd) state" where
  "submission self h =
     and_then
       (case df_generator self of
          Some gen \<Rightarrow> ingest_feature_table_with_pandas_df self h gen
        | None \<Rightarrow>
            call (submit_materialization_job h (workspace self) (feature_view self)
                    (online self) (offline self) (start_time self) (end_time self)
                    (allow_overwrite self) False)
              (Submit_job (workspace self) (feature_view self) (online self) (offline self)
                 (start_time self) (end_time self) (allow_overwrite self) False))
       (\<lambda>resp s. (Returns (job_ident resp), s\<lparr>job_id := Some (job_ident resp)\<rparr>))"

text \<open>
  Lines 138-145, the progress log of one poll tick. \<^verbatim>\<open>attempts[-1]\<close> raises
  \<^verbatim>\<open>IndexError\<close> on an empty list.
\<close>

definition log_progress :: "job \<Rightarrow> ('c, 'd) state \<Rightarrow> unit res \<times> ('c, 'd) state" where
  "log_progress job_result =
     (case attempts job_result of
        Some atts \<Rightarrow>
          (if atts = [] then Pair (Raises IndexError)
           else logging_info
                  (Latest_attempt (length atts) (attempt_state (last atts)) (run_url (last atts))))
      | None \<Rightarrow> logging_info No_attempt_launched_yet)"

text \<open>Lines 137-155: the polling loop and the final test. Fuel as above.\<close>

definition final_result :: "job \<Rightarrow> ('c, 'd) state \<Rightarrow> unit res \<times> ('c, 'd) state" where
  "final_result job_result =
     (if success_upper (job_state job_result) then Pair (Returns ())
      else Pair (Raises (Final_state_exception (job_state job_result) job_result)))"

fun poll ::
  "nat \<Rightarrow> ('c, 'd) operator \<Rightarrow> ('c, 'd) hook \<Rightarrow> string \<Rightarrow> job \<Rightarrow> ('c, 'd) state
     \<Rightarrow> unit res \<times> ('c, 'd) state" where
  "poll 0 self h jid job_result s =
     (if running_upper (job_state job_result) then (Out_of_fuel, s)
      else final_result job_result s)"
| "poll (Suc n) self h jid job_result s =
     (if running_upper (job_state job_result) then
        and_then (log_progress job_result)
          (\<lambda>_. and_then (time_sleep 60)
             (\<lambda>_. and_then
                (call (get_materialization_job h (workspace self) (feature_view self) jid)
                   (Get_job (workspace self) (feature_view self) jid))
                (poll n self h jid))) s
      else final_result job_result s)"

text \<open>Lines 134-155.\<close>

definition poll_to_terminal ::
  "nat \<Rightarrow> ('c, 'd) operator \<Rightarrow> ('c, 'd) hook \<Rightarrow> string \<Rightarrow> ('c, 'd) state
     \<Rightarrow> unit res \<times> ('c, 'd) state" where
  "poll_to_terminal fuel self h jid =
     and_then
       (call (get_materialization_job h (workspace self) (feature_view self) jid)
          (Get_job (workspace self) (feature_view self) jid))
       (poll fuel self h jid)"

text \<open>\<^verbatim>\<open>execute\<close>, lines 79-155.\<close>

definition execute ::
  "nat \<Rightarrow> ('c, 'd) operator \<Rightarrow> ('c, 'd) hook \<Rightarrow> ('c, 'd) state \<Rightarrow> unit res \<times> ('c, 'd) state" where
  "execute fuel self h =
     and_then
       (call (find_materialization_job h (workspace self) (feature_view self) (online self)
                (offline self) (start_time self) (end_time self)
                (if df_generator self \<noteq> None then ''ingest'' else ''batch''))
          (Find_job (workspace self) (feature_view self) (online self) (offline self)
             (start_time self) (end_time self)
             (if df_generator self \<noteq> None then ''ingest'' else ''batch'')))
       (\<lambda>found. and_then (existing_job fuel self h found)
          (\<lambda>go_on. if go_on then and_then (submission self h) (poll_to_terminal fuel self h)
                    else Pair (Returns ())))"

text \<open>\<^verbatim>\<open>on_kill\<close>, lines 168-177. \<^verbatim>\<open>if self.job_id\<close> is false for \<^verbatim>\<open>None\<close> and for \<^verbatim>\<open>""\<close>.\<close>

definition on_kill ::
  "('c, 'd) operator \<Rightarrow> ('c, 'd) hook \<Rightarrow> ('c, 'd) state \<Rightarrow> unit res \<times> ('c, 'd) state" where
  "on_kill self h s =
     (case job_id s of
        Some jid \<Rightarrow>
          (if jid \<noteq> [] then
             and_then (logging_info (Attempting_to_kill jid))
               (\<lambda>_. and_then
                  (call (cancel_materialization_job h (workspace self) (feature_view self) jid)
                     (Cancel_job (workspace self) (feature_view self) jid))
                  (\<lambda>_. logging_info (Successfully_killed jid))) s
           else logging_info No_job_started s)
      | None \<Rightarrow> logging_info No_job_started s)"

section \<open>Phases of a run\<close>

text \<open>
  Two initial segments of \<open>execute\<close>, to name the point a run has reached: lines 80-118
  (\<open>Returns True\<close> when control reaches the submission of line 120), and lines 80-133
  (the identifier of the job submitted, or \<open>None\<close> after the \<^verbatim>\<open>return\<close> of line 118).
\<close>

definition lookup_and_decide ::
  "nat \<Rightarrow> ('c, 'd) operator \<Rightarrow> ('c, 'd) hook \<Rightarrow> ('c, 'd) state \<Rightarrow> bool res \<times> ('c, 'd) state" where
  "lookup_and_decide fuel self h =
     and_then
       (call (find_materialization_job h (workspace self) (feature_view self) (online self)
                (offline self) (start_time self) (end_time self)
                (if df_generator self \<noteq> None then ''ingest'' else ''batch''))
          (Find_job (workspace self) (feature_view self) (online self) (offline self)
             (start_time self) (end_time self)
             (if df_generator self \<noteq> None then ''ingest'' else ''batch'')))
       (existing_job fuel self h)"

definition up_to_submission ::
  "nat \<Rightarrow> ('c, 'd) operator \<Rightarrow> ('c, 'd) hook \<Rightarrow> ('c, 'd) state
     \<Rightarrow> string option res \<times> ('c, 'd) state" where
  "up_to_submission fuel self h =
     and_then (lookup_and_decide fuel self h)
       (\<lambda>go_on. if go_on then and_then (submission self h) (\<lambda>jid. Pair (Returns (Some jid)))
                 else Pair (Returns None))"

section \<open>Reading a trace\<close>

datatype kind =
  K_find | K_cancel | K_get | K_submit | K_stage | K_generate | K_upload | K_ingest
  | K_sleep | K_log

fun kind_of :: "'d event \<Rightarrow> kind" where
  "kind_of (Find_job ws fv on off st et jt r) = K_find"
| "kind_of (Cancel_job ws fv jid r) = K_cancel"
| "kind_of (Get_job ws fv jid r) = K_get"
| "kind_of (Submit_job ws fv on off st et ow tmr r) = K_submit"
| "kind_of (Get_dataframe_info fv ws r) = K_stage"
| "kind_of (Df_generator r) = K_generate"
| "kind_of (Upload_df url df r) = K_upload"
| "kind_of (Ingest_dataframe fv path ws r) = K_ingest"
| "kind_of (Sleep n) = K_sleep"
| "kind_of (Log m) = K_log"

text \<open>The events a run has added to the trace it started with.\<close>

definition new_events :: "('c, 'd) state \<Rightarrow> ('c, 'd) state \<Rightarrow> 'd event list" where
  "new_events s s' = drop (length (trace s)) (trace s')"

text \<open>The calls of the ingest path (lines 158-166), and those of either submission.\<close>

definition ingest_path_event :: "'d event \<Rightarrow> bool" where
  "ingest_path_event e = (kind_of e \<in> {K_stage, K_generate, K_upload, K_ingest})"

definition submission_event :: "'d event \<Rightarrow> bool" where
  "submission_event e = (kind_of e = K_submit \<or> ingest_path_event e)"

text \<open>
  What the loop of lines 100-110 adds to the trace while it waits: for each record
  fetched that does not end the loop, the fetch, the log line and the sleep.
\<close>

definition waiting :: "string \<Rightarrow> string \<Rightarrow> string \<Rightarrow> job list \<Rightarrow> 'd event list" where
  "waiting ws fv jid js =
     concat (map (\<lambda>j. [Get_job ws fv jid (Inr j), Log Waiting_for_manually_cancelled, Sleep 60]) js)"

text \<open>
  A computation that only appends to the trace, and only events of the kinds \<open>K\<close>.
\<close>

definition only :: "kind set \<Rightarrow> (('c, 'd) state \<Rightarrow> 'a res \<times> ('c, 'd) state) \<Rightarrow> bool" where
  "only K m = (\<forall>s. \<exists>evs. trace (snd (m s)) = trace s @ evs \<and> (\<forall>e\<in>set evs. kind_of e \<in> K))"

text \<open>
  A computation that does not read the trace: started on another trace it returns the
  same result and appends the same events.
\<close>

definition trace_blind :: "(('c, 'd) state \<Rightarrow> 'a res \<times> ('c, 'd) state) \<Rightarrow> bool" where
  "trace_blind m =
     (\<forall>s. \<exists>evs. trace (snd (m s)) = trace s @ evs \<and>
        (\<forall>tr. m (s\<lparr>trace := tr\<rparr>) = (fst (m s), (snd (m s))\<lparr>trace := tr @ evs\<rparr>)))"

section \<open>Test doubles\<close>

text \<open>
  A client whose state counts the fetches made since the last lookup: the lookup answers
  from \<open>found\<close> and resets the count, the \<open>k\<close>-th fetch answers \<open>script k\<close>, a
  cancellation answers \<open>cancelled\<close>, and a submission creates the job \<^verbatim>\<open>new\<close>.
\<close>

definition no_job :: "nat \<Rightarrow> job option" where
  "no_job c = None"

definition existing :: "job \<Rightarrow> nat \<Rightarrow> job option" where
  "existing j c = Some j"

definition answers :: "(string + job) list \<Rightarrow> nat \<Rightarrow> string + job" where
  "answers xs k = (if k < length xs then xs ! k else Inl ''gone'')"

definition table_generator :: "nat \<Rightarrow> (string + string) \<times> nat" where
  "table_generator c = (Inr ''table'', c)"

definition new_job :: job where
  "new_job = \<lparr>job_ident = ''new'', job_state = ''PENDING'', attempts = None\<rparr>"

definition stub ::
  "(nat \<Rightarrow> job option) \<Rightarrow> (string + unit) \<Rightarrow> (nat \<Rightarrow> string + job) \<Rightarrow> (nat, string) hook" where
  "stub found cancelled script =
     \<lparr>find_materialization_job = (\<lambda>ws fv on off st et jt c. (Inr (found c), 0)),
      cancel_materialization_job = (\<lambda>ws fv jid c. (cancelled, c)),
      get_materialization_job = (\<lambda>ws fv jid c. (script c, Suc c)),
      submit_materialization_job = (\<lambda>ws fv on off st et ow tmr c. (Inr new_job, c)),
      get_dataframe_info =
        (\<lambda>fv ws c. (Inr \<lparr>df_path = ''s3://bucket/df'', signed_url_for_df_upload = ''https://signed''\<rparr>, c)),
      ingest_dataframe = (\<lambda>fv path ws c. (Inr new_job, c)),
      upload_df_pandas = (\<lambda>url df c. (Inr (), c))\<rparr>"

definition job_in :: "string \<Rightarrow> string \<Rightarrow> attempt list option \<Rightarrow> job" where
  "job_in jid st atts = \<lparr>job_ident = jid, job_state = st, attempts = atts\<rparr>"

definition batch_operator :: "bool \<Rightarrow> (nat, string) operator" where
  "batch_operator overwrite =
     \<lparr>workspace = ''prod'', feature_view = ''fv'', online = True, offline = False,
      start_time = ''2022-01-01'', end_time = ''2022-01-02'', allow_overwrite = overwrite,
      df_generator = None\<rparr>"

definition ingest_operator :: "(nat, string) operator" where
  "ingest_operator =
     \<lparr>workspace = ''prod'', feature_view = ''fv'', online = True, offline = False,
      start_time = ''2022-01-01'', end_time = ''2022-01-02'', allow_overwrite = False,
      df_generator = Some table_generator\<rparr>"

definition fresh :: "nat \<Rightarrow> (nat, string) state" where
  "fresh c = \<lparr>client = c, trace = [], job_id = None\<rparr>"

section \<open>Properties of the state tests\<close>

lemma of_char_lt: "(of_char c :: nat) < 256"
  by (metis of_char_mod_256 mod_less_divisor zero_less_numeral)

lemma of_char_lower_char:
  "(of_char (lower_char c) :: nat) =
     (if (65 \<le> (of_char c :: nat) \<and> (of_char c :: nat) \<le> 90) \<or>
         (192 \<le> (of_char c :: nat) \<and> (of_char c :: nat) \<le> 222 \<and> (of_char c :: nat) \<noteq> 215)
      then of_char c + 32 else of_char c)"
  by (simp add: lower_char_def Let_def)

lemma same_ignoring_case_lower:
  assumes "(of_char b :: nat) < 128"
  shows "same_ignoring_case a b \<longleftrightarrow> lower_char a = lower_char b"
proof -
  have "lower_char a = lower_char b \<longleftrightarrow> (of_char (lower_char a) :: nat) = of_char (lower_char b)"
    by simp
  also have "\<dots> \<longleftrightarrow> same_ignoring_case a b"
    unfolding of_char_lower_char same_ignoring_case_def
    using of_char_eq_iff [of a b, where ?'a = nat] assms
    by (auto simp: is_capital_def simp del: of_char_eq_iff)
  finally show ?thesis by simp
qed

lemma list_all2_lower:
  "is_ascii w \<Longrightarrow> list_all2 same_ignoring_case t w \<longleftrightarrow> map lower_char t = map lower_char w"
proof (induction w arbitrary: t)
  case Nil
  then show ?case by simp
next
  case (Cons b w)
  then show ?case
    by (cases t) (auto simp: is_ascii_def same_ignoring_case_lower)
qed

lemma ends_ignoring_case_lower:
  "is_ascii w \<Longrightarrow> ends_ignoring_case s w \<longleftrightarrow> endswith (str_lower s) (str_lower w)"
  by (simp add: ends_ignoring_case_def endswith_def str_lower_def list_all2_lower drop_map)

lemma upper_char_ascii:
  "(of_char a :: nat) < 128 \<Longrightarrow>
     upper_char a = [if 97 \<le> (of_char a :: nat) \<and> (of_char a :: nat) \<le> 122 then of_char a - 32
                     else of_char a]"
  by (simp add: upper_char_def Let_def)

lemma same_ignoring_case_upper:
  assumes "(of_char a :: nat) < 128" and "is_capital b"
  shows "same_ignoring_case a b \<longleftrightarrow> upper_char a = [of_char b]"
  unfolding upper_char_ascii [OF assms(1)] same_ignoring_case_def
  using of_char_eq_iff [of a b, where ?'a = nat] assms
  by (auto simp: is_capital_def simp del: of_char_eq_iff)

lemma list_all2_upper:
  "is_ascii t \<Longrightarrow> list_all is_capital w \<Longrightarrow>
     list_all2 same_ignoring_case t w \<longleftrightarrow> concat (map upper_char t) = map of_char w"
proof (induction w arbitrary: t)
  case Nil
  then show ?case
    by (cases t) (auto simp: is_ascii_def upper_char_ascii)
next
  case (Cons b w)
  show ?case
  proof (cases t)
    case Nil
    then show ?thesis by simp
  next
    case (Cons a t')
    have a: "(of_char a :: nat) < 128" and t': "is_ascii t'"
      using Cons.prems(1) Cons by (simp_all add: is_ascii_def)
    have b: "is_capital b" and w: "list_all is_capital w"
      using Cons.prems(2) by simp_all
    obtain x where x: "upper_char a = [x]"
      using upper_char_ascii [OF a] by blast
    show ?thesis
      using Cons.IH [OF t' w] same_ignoring_case_upper [OF a b] x Cons
      by auto
  qed
qed

lemma length_str_upper_ascii: "is_ascii s \<Longrightarrow> length (str_upper s) = length s"
  by (induction s) (auto simp: str_upper_def is_ascii_def upper_char_ascii)

lemma drop_str_upper_ascii: "is_ascii s \<Longrightarrow> drop n (str_upper s) = str_upper (drop n s)"
proof (induction s arbitrary: n)
  case Nil
  then show ?case by (simp add: str_upper_def)
next
  case (Cons a s)
  then show ?case
    by (cases n) (auto simp: str_upper_def is_ascii_def upper_char_ascii)
qed

lemma is_ascii_drop: "is_ascii s \<Longrightarrow> is_ascii (drop n s)"
  unfolding is_ascii_def list_all_iff by (auto dest: in_set_dropD)

lemma ends_ignoring_case_upper:
  assumes "is_ascii s" and "list_all is_capital w"
  shows "ends_ignoring_case s w \<longleftrightarrow> endswith (str_upper s) (code_points w)"
proof -
  have "list_all2 same_ignoring_case (drop (length s - length w) s) w
      \<longleftrightarrow> str_upper (drop (length s - length w) s) = map of_char w"
    unfolding str_upper_def
    by (rule list_all2_upper [OF is_ascii_drop [OF assms(1)] assms(2)])
  then show ?thesis
    unfolding ends_ignoring_case_def endswith_def code_points_def
      length_str_upper_ascii [OF assms(1)] drop_str_upper_ascii [OF assms(1)]
    by simp
qed

lemma lower_RUNNING: "str_lower ''RUNNING'' = ''running''"
  by code_simp

lemma lower_SUCCESS: "str_lower ''SUCCESS'' = ''success''"
  by code_simp

lemma lower_MANUALLY_CANCELLED: "str_lower ''MANUALLY_CANCELLED'' = ''manually_cancelled''"
  by code_simp

lemma ascii_words:
  "is_ascii ''RUNNING''" "is_ascii ''SUCCESS''" "is_ascii ''MANUALLY_CANCELLED''"
  by code_simp+

lemma capital_words: "list_all is_capital ''RUNNING''" "list_all is_capital ''SUCCESS''"
  by code_simp+

lemma running_lower_iff: "running_lower st \<longleftrightarrow> ends_ignoring_case st ''RUNNING''"
  by (simp add: running_lower_def ends_ignoring_case_lower ascii_words lower_RUNNING)

lemma success_lower_iff: "success_lower st \<longleftrightarrow> ends_ignoring_case st ''SUCCESS''"
  by (simp add: success_lower_def ends_ignoring_case_lower ascii_words lower_SUCCESS)

lemma cancelled_lower_iff:
  "cancelled_lower st \<longleftrightarrow> ends_ignoring_case st ''MANUALLY_CANCELLED''"
  by (simp add: cancelled_lower_def ends_ignoring_case_lower ascii_words
      lower_MANUALLY_CANCELLED)

lemma running_upper_iff:
  "is_ascii st \<Longrightarrow> running_upper st \<longleftrightarrow> ends_ignoring_case st ''RUNNING''"
  using ends_ignoring_case_upper [OF _ capital_words(1), of st]
  by (simp add: running_upper_def)

lemma success_upper_iff:
  "is_ascii st \<Longrightarrow> success_upper st \<longleftrightarrow> ends_ignoring_case st ''SUCCESS''"
  using ends_ignoring_case_upper [OF _ capital_words(2), of st]
  by (simp add: success_upper_def)

lemma not_running_and_success:
  "\<not> (ends_ignoring_case st ''RUNNING'' \<and> ends_ignoring_case st ''SUCCESS'')"
  by (auto simp: ends_ignoring_case_lower ascii_words lower_RUNNING lower_SUCCESS endswith_def)

lemma not_running_upper_and_success_upper: "\<not> (running_upper st \<and> success_upper st)"
  by (auto simp: running_upper_def success_upper_def endswith_def code_points_def)

lemma final_result_failure:
  "\<not> success_upper (job_state j) \<Longrightarrow>
     final_result j s = (Raises (Final_state_exception (job_state j) j), s)"
  by (simp add: final_result_def)

lemma poll_not_running:
  "\<not> running_upper (job_state j) \<Longrightarrow> poll fuel self h jid j s = final_result j s"
  by (cases fuel) simp_all

text \<open>
  C7, as stated, fails on the tests of the polling loop. Lines 137 and 150 upper the
  state, and \<^verbatim>\<open>str.upper\<close> turns the sharp s into SS: the state made of the letters
  s, u, c, c, e and the sharp s passes the test for success of line 150, so that the poll
  returns normally, while it does not end, ignoring case, in SUCCESS and fails the test
  for success of line 111, which lowers the state.
\<close>

theorem upper_test_counterexample:
  "success_upper (''succe'' @ [CHR 0xDF]) \<and>
   \<not> success_lower (''succe'' @ [CHR 0xDF]) \<and>
   \<not> ends_ignoring_case (''succe'' @ [CHR 0xDF]) ''SUCCESS'' \<and>
   poll 2 (batch_operator False) (stub no_job (Inr ()) (answers [])) ''new''
     (job_in ''new'' (''succe'' @ [CHR 0xDF]) None) (fresh 0)
   = (Returns (), fresh 0)"
  by code_simp

text \<open>
  C7, amended. The tests that lower the state (lines 93 and 111) are suffix tests that
  ignore case, on every state: the test for a running job holds exactly when the state
  ends, ignoring case, in RUNNING, the test for success exactly when it ends, ignoring
  case, in SUCCESS. The tests that upper the state (lines 137 and 150) are the same tests
  on every state made of ASCII characters, and a polled job whose ASCII state passes
  neither ends the run with the exception of lines 153-155. The compound state
  BACKFILL_RUNNING passes both tests for a running job.
\<close>

theorem state_classification:
  "(running_lower st \<longleftrightarrow> ends_ignoring_case st ''RUNNING'') \<and>
   (success_lower st \<longleftrightarrow> ends_ignoring_case st ''SUCCESS'') \<and>
   (is_ascii st \<longrightarrow>
      (running_upper st \<longleftrightarrow> ends_ignoring_case st ''RUNNING'') \<and>
      (success_upper st \<longleftrightarrow> ends_ignoring_case st ''SUCCESS'') \<and>
      (job_state j = st \<and> \<not> ends_ignoring_case st ''RUNNING'' \<and>
       \<not> ends_ignoring_case st ''SUCCESS''
         \<longrightarrow> poll fuel self h jid j s = (Raises (Final_state_exception st j), s))) \<and>
   running_lower ''BACKFILL_RUNNING'' \<and> running_upper ''BACKFILL_RUNNING''"
proof -
  have "running_lower ''BACKFILL_RUNNING''" by code_simp
  moreover have "running_upper ''BACKFILL_RUNNING''" by code_simp
  ultimately show ?thesis
    by (auto simp: running_lower_iff running_upper_iff success_lower_iff success_upper_iff
        poll_not_running final_result_failure)
qed

theorem state_classification_witness:
  "is_ascii ''ERROR'' \<and>
   \<not> ends_ignoring_case ''ERROR'' ''RUNNING'' \<and> \<not> ends_ignoring_case ''ERROR'' ''SUCCESS'' \<and>
   \<not> running_upper ''ERROR'' \<and> \<not> success_upper ''ERROR'' \<and>
   poll 2 (batch_operator False) (stub no_job (Inr ()) (answers [])) ''new''
     (job_in ''new'' ''ERROR'' None) (fresh 0)
   = (Raises (Final_state_exception ''ERROR'' (job_in ''new'' ''ERROR'' None)), fresh 0)"
proof -
  have a: "\<not> ends_ignoring_case ''ERROR'' ''RUNNING''" by code_simp
  have b: "\<not> ends_ignoring_case ''ERROR'' ''SUCCESS''" by code_simp
  have c: "job_state (job_in ''new'' ''ERROR'' None) = ''ERROR''" by (simp add: job_in_def)
  have d: "is_ascii ''ERROR''" by code_simp
  show ?thesis
    using a b c d
      state_classification [of "''ERROR''" "job_in ''new'' ''ERROR'' None" 2
        "batch_operator False" "stub no_job (Inr ()) (answers [])" "''new''" "fresh 0"]
    by simp
qed

section \<open>Sequencing and traces\<close>

lemma and_then_Returns: "m s = (Returns a, s') \<Longrightarrow> and_then m f s = f a s'"
  by (simp add: and_then_def)

lemma and_then_Raises: "m s = (Raises e, s') \<Longrightarrow> and_then m f s = (Raises e, s')"
  by (simp add: and_then_def)

lemma and_then_Out_of_fuel: "m s = (Out_of_fuel, s') \<Longrightarrow> and_then m f s = (Out_of_fuel, s')"
  by (simp add: and_then_def)

lemma and_then_Pair_Returns [simp]: "and_then (Pair (Returns a)) f s = f a s"
  by (simp add: and_then_def)

lemma and_then_logging_info [simp]: "and_then (logging_info m) f s = f () (emit (Log m) s)"
  by (simp add: and_then_def logging_info_def)

lemma and_then_time_sleep [simp]: "and_then (time_sleep n) f s = f () (emit (Sleep n) s)"
  by (simp add: and_then_def time_sleep_def)

lemma call_Inr:
  "f (client s) = (Inr a, c') \<Longrightarrow> call f ev s = (Returns a, emit (ev (Inr a)) (s\<lparr>client := c'\<rparr>))"
  by (simp add: call_def)

lemma call_Inl:
  "f (client s) = (Inl e, c') \<Longrightarrow>
     call f ev s = (Raises (Collaborator_error e), emit (ev (Inl e)) (s\<lparr>client := c'\<rparr>))"
  by (simp add: call_def)

lemma trace_emit [simp]: "trace (emit e s) = trace s @ [e]"
  by (simp add: emit_def)

lemma client_emit [simp]: "client (emit e s) = client s"
  by (simp add: emit_def)

lemma job_id_emit [simp]: "job_id (emit e s) = job_id s"
  by (simp add: emit_def)

lemma onlyI:
  assumes "\<And>s. \<exists>evs. trace (snd (m s)) = trace s @ evs \<and> (\<forall>e\<in>set evs. kind_of e \<in> K)"
  shows "only K m"
  using assms by (simp add: only_def)

lemma onlyD:
  assumes "only K m"
  obtains evs where "trace (snd (m s)) = trace s @ evs" "\<forall>e\<in>set evs. kind_of e \<in> K"
  using assms unfolding only_def by blast

lemma only_and_then:
  assumes m: "only K m" and f: "\<And>a. only K (f a)"
  shows "only K (and_then m f)"
proof (rule onlyI)
  fix s
  obtain r s1 where ms: "m s = (r, s1)" by (cases "m s")
  from m obtain evs where evs: "trace (snd (m s)) = trace s @ evs" "\<forall>e\<in>set evs. kind_of e \<in> K"
    by (rule onlyD)
  show "\<exists>evs. trace (snd (and_then m f s)) = trace s @ evs \<and> (\<forall>e\<in>set evs. kind_of e \<in> K)"
  proof (cases r)
    case (Returns a)
    from f [of a] obtain evs' where evs':
      "trace (snd (f a s1)) = trace s1 @ evs'" "\<forall>e\<in>set evs'. kind_of e \<in> K"
      by (rule onlyD)
    have "trace (snd (and_then m f s)) = trace s @ (evs @ evs')"
      using ms Returns evs(1) evs'(1) by (simp add: and_then_def)
    moreover have "\<forall>e\<in>set (evs @ evs'). kind_of e \<in> K"
      using evs(2) evs'(2) by auto
    ultimately show ?thesis by blast
  next
    case (Raises e)
    then show ?thesis using ms evs by (auto simp: and_then_def)
  next
    case Out_of_fuel
    then show ?thesis using ms evs by (auto simp: and_then_def)
  qed
qed

lemma only_call: "(\<And>r. kind_of (ev r) \<in> K) \<Longrightarrow> only K (call f ev)"
  by (rule onlyI) (auto simp: call_def split: prod.splits)

lemma only_Pair: "only K (Pair r)"
  by (rule onlyI) simp

lemma only_logging_info: "K_log \<in> K \<Longrightarrow> only K (logging_info m)"
  by (rule onlyI) (simp add: logging_info_def)

lemma only_time_sleep: "K_sleep \<in> K \<Longrightarrow> only K (time_sleep n)"
  by (rule onlyI) (simp add: time_sleep_def)

lemma only_if: "only K a \<Longrightarrow> only K b \<Longrightarrow> only K (if c then a else b)"
  by simp

lemma only_mono: "only K m \<Longrightarrow> K \<subseteq> K' \<Longrightarrow> only K' m"
  unfolding only_def by blast

lemmas only_intros =
  only_and_then only_call only_Pair only_logging_info only_time_sleep only_if

lemma only_wait_for_cancel: "only {K_get, K_log, K_sleep} (wait_for_cancel fuel self h jid)"
proof (induction fuel)
  case 0
  have "wait_for_cancel 0 self h jid =
     and_then
       (call (get_materialization_job h (workspace self) (feature_view self) jid)
          (Get_job (workspace self) (feature_view self) jid))
       (\<lambda>j s'. if \<not> cancelled_lower (job_state j) then (Out_of_fuel, s') else (Returns (), s'))"
    by (rule ext) simp
  moreover have "only {K_get, K_log, K_sleep}
      (\<lambda>s'. if \<not> cancelled_lower (job_state j) then (Out_of_fuel, s') else (Returns (), s'))" for j
    by (rule onlyI) simp
  ultimately show ?case
    by (auto intro!: only_and_then only_call)
next
  case (Suc n)
  have "wait_for_cancel (Suc n) self h jid =
     and_then
       (call (get_materialization_job h (workspace self) (feature_view self) jid)
          (Get_job (workspace self) (feature_view self) jid))
       (\<lambda>j. if \<not> cancelled_lower (job_state j)
            then and_then (logging_info Waiting_for_manually_cancelled)
                   (\<lambda>_. and_then (time_sleep 60) (\<lambda>_. wait_for_cancel n self h jid))
            else Pair (Returns ()))"
    by (rule ext) simp
  then show ?case
    using Suc by (auto intro!: only_intros)
qed

lemma only_final_result: "only K (final_result j)"
  by (simp add: final_result_def only_Pair)

lemma only_log_progress: "K_log \<in> K \<Longrightarrow> only K (log_progress j)"
  by (auto simp: log_progress_def intro!: only_intros split: option.splits)

lemma only_poll: "only {K_get, K_log, K_sleep} (poll fuel self h jid j)"
proof (induction fuel arbitrary: j)
  case 0
  have "poll 0 self h jid j = (if running_upper (job_state j) then Pair Out_of_fuel
      else final_result j)"
    by (rule ext) simp
  then show ?case by (simp add: only_Pair only_final_result)
next
  case (Suc n)
  have "poll (Suc n) self h jid j =
     (if running_upper (job_state j) then
        and_then (log_progress j)
          (\<lambda>_. and_then (time_sleep 60)
             (\<lambda>_. and_then
                (call (get_materialization_job h (workspace self) (feature_view self) jid)
                   (Get_job (workspace self) (feature_view self) jid))
                (poll n self h jid)))
      else final_result j)"
    by (rule ext) simp
  then show ?case
    using Suc by (auto intro!: only_intros only_final_result only_log_progress)
qed

lemma only_poll_to_terminal: "only {K_get, K_log, K_sleep} (poll_to_terminal fuel self h jid)"
  unfolding poll_to_terminal_def
  by (auto intro!: only_intros only_poll)

lemma only_existing_job:
  "only {K_get, K_log, K_sleep, K_cancel} (existing_job fuel self h found)"
  unfolding existing_job_def
  by (auto intro!: only_intros only_mono [OF only_wait_for_cancel] split: option.splits)

lemma only_ingest:
  "only {K_stage, K_generate, K_upload, K_ingest} (ingest_feature_table_with_pandas_df self h gen)"
  unfolding ingest_feature_table_with_pandas_df_def
  by (auto intro!: only_intros)

lemma only_set_job_id: "only K (\<lambda>s. (r, s\<lparr>job_id := x\<rparr>))"
  by (rule onlyI) simp

lemma only_submission_ingest:
  "df_generator self \<noteq> None \<Longrightarrow>
     only {K_stage, K_generate, K_upload, K_ingest} (submission self h)"
  unfolding submission_def
  by (auto intro!: only_and_then only_ingest only_set_job_id)

lemma only_submission_direct:
  "df_generator self = None \<Longrightarrow> only {K_submit} (submission self h)"
  unfolding submission_def
  by (auto intro!: only_and_then only_call only_set_job_id)

section \<open>The decision on an existing job\<close>

text \<open>
  C1. When the lookup finds a job whose state ends, ignoring case, in SUCCESS and
  \<^verbatim>\<open>allow_overwrite\<close> is false, \<open>execute\<close> returns at once, whatever the fuel: all it
  has done is the lookup and two log lines, so it has made no submission, no ingestion,
  no cancellation, no fetch and no sleep, and \<^verbatim>\<open>self.job_id\<close> is unchanged.
\<close>

theorem skip_idempotence:
  assumes find: "find_materialization_job h (workspace self) (feature_view self) (online self)
      (offline self) (start_time self) (end_time self)
      (if df_generator self \<noteq> None then ''ingest'' else ''batch'') (client s) = (Inr (Some j), c')"
    and success: "ends_ignoring_case (job_state j) ''SUCCESS''"
    and no_overwrite: "\<not> allow_overwrite self"
  shows "execute fuel self h s =
    (Returns (),
     s\<lparr>client := c',
       trace := trace s @
         [Find_job (workspace self) (feature_view self) (online self) (offline self)
            (start_time self) (end_time self)
            (if df_generator self \<noteq> None then ''ingest'' else ''batch'') (Inr (Some j)),
          Log (Existing_job_found j), Log Existing_success_exiting]\<rparr>)"
proof -
  have "\<not> running_lower (job_state j)"
    using success not_running_and_success [of "job_state j"] by (simp add: running_lower_iff)
  moreover have "success_lower (job_state j)"
    using success by (simp add: success_lower_iff)
  ultimately show ?thesis
    using no_overwrite find
    by (simp add: execute_def call_def and_then_def existing_job_def logging_info_def emit_def)
qed

theorem skip_idempotence_witness:
  "ends_ignoring_case ''Backfill_Success'' ''SUCCESS'' \<and>
   execute 3 (batch_operator False)
     (stub (existing (job_in ''old'' ''Backfill_Success'' None)) (Inr ()) (answers []))
     (fresh 7)
   = (Returns (),
      \<lparr>client = 0,
       trace = [Find_job ''prod'' ''fv'' True False ''2022-01-01'' ''2022-01-02'' ''batch''
                  (Inr (Some (job_in ''old'' ''Backfill_Success'' None))),
                Log (Existing_job_found (job_in ''old'' ''Backfill_Success'' None)),
                Log Existing_success_exiting],
       job_id = None\<rparr>)"
proof -
  let ?h = "stub (existing (job_in ''old'' ''Backfill_Success'' None)) (Inr ()) (answers [])"
  let ?self = "batch_operator False"
  have a: "find_materialization_job ?h (workspace ?self) (feature_view ?self) (online ?self)
      (offline ?self) (start_time ?self) (end_time ?self)
      (if df_generator ?self \<noteq> None then ''ingest'' else ''batch'') (client (fresh 7))
      = (Inr (Some (job_in ''old'' ''Backfill_Success'' None)), 0)"
    by (simp add: stub_def no_job_def existing_def answers_def)
  have b: "ends_ignoring_case (job_state (job_in ''old'' ''Backfill_Success'' None)) ''SUCCESS''"
    unfolding job_in_def by code_simp
  have c: "\<not> allow_overwrite ?self"
    by (simp add: batch_operator_def)
  have d: "ends_ignoring_case ''Backfill_Success'' ''SUCCESS''"
    by code_simp
  show ?thesis
    using d skip_idempotence [OF a b c, of 3]
    by (simp add: batch_operator_def fresh_def)
qed

section \<open>The progress log\<close>

lemma log_progress_no_attempts:
  "attempts j = None \<Longrightarrow> log_progress j s = (Returns (), emit (Log No_attempt_launched_yet) s)"
  by (simp add: log_progress_def logging_info_def)

lemma log_progress_latest:
  "attempts j = Some atts \<Longrightarrow> atts \<noteq> [] \<Longrightarrow>
     log_progress j s =
       (Returns (),
        emit (Log (Latest_attempt (length atts) (attempt_state (last atts)) (run_url (last atts)))) s)"
  by (simp add: log_progress_def logging_info_def)

text \<open>
  C8. On a running job record whose \<^verbatim>\<open>"attempts"\<close> key is present and holds an empty
  list, the poll tick does not complete: \<^verbatim>\<open>attempts[-1]\<close> raises \<^verbatim>\<open>IndexError\<close> before
  anything is logged, where the specification has the tick note that no attempt has
  launched yet. (With the key absent, or a non-empty list, the tick logs as specified: the
  two lemmas above.)
\<close>

theorem empty_attempts_raise:
  "poll 3 (batch_operator False) (stub no_job (Inr ()) (answers []))
      ''new'' (job_in ''new'' ''RUNNING'' (Some [])) (fresh 0)
   = (Raises IndexError, fresh 0)"
proof -
  have "running_upper (job_state (job_in ''new'' ''RUNNING'' (Some [])))"
    unfolding job_in_def by code_simp
  then show ?thesis
    by (simp add: numeral_3_eq_3 log_progress_def and_then_def job_in_def)
qed

text \<open>
  C3. The same defect, seen from \<open>execute\<close>, for N = 1: the client reports the new job
  running on the first fetch, with an empty list of attempts, and successful on the
  second. The run makes one fetch and no sleep and raises \<^verbatim>\<open>IndexError\<close>, where the
  specification has two fetches, one sleep and a normal return.
\<close>

theorem convergence_fails_on_empty_attempts:
  "execute 5 (batch_operator False)
     (stub no_job (Inr ())
        (answers [Inr (job_in ''new'' ''RUNNING'' (Some [])),
                 Inr (job_in ''new'' ''SUCCESS'' None)]))
     (fresh 0)
   = (Raises IndexError,
      \<lparr>client = 1,
       trace = [Find_job ''prod'' ''fv'' True False ''2022-01-01'' ''2022-01-02'' ''batch'' (Inr None),
                Submit_job ''prod'' ''fv'' True False ''2022-01-01'' ''2022-01-02'' False False
                  (Inr new_job),
                Get_job ''prod'' ''fv'' ''new'' (Inr (job_in ''new'' ''RUNNING'' (Some [])))],
       job_id = Some ''new''\<rparr>)"
proof -
  have r: "running_upper ''RUNNING''" by code_simp
  show ?thesis
    by (simp add: execute_def existing_job_def submission_def poll_to_terminal_def
        call_def and_then_def stub_def no_job_def existing_def answers_def batch_operator_def fresh_def emit_def new_job_def
        job_in_def log_progress_def r eval_nat_numeral)
qed

section \<open>The cancellation hook\<close>

text \<open>
  C5, as stated, fails: \<open>on_kill\<close> has no \<^verbatim>\<open>try\<close>, so an error of the client's cancel
  operation leaves the hook, and the line that reports success is not logged.
\<close>

theorem on_kill_counterexample:
  "on_kill (batch_operator False) (stub no_job (Inl ''unreachable'') (answers []))
     \<lparr>client = 0, trace = [], job_id = Some ''new''\<rparr>
   = (Raises (Collaborator_error ''unreachable''),
      \<lparr>client = 0,
       trace = [Log (Attempting_to_kill ''new''),
                Cancel_job ''prod'' ''fv'' ''new'' (Inl ''unreachable'')],
       job_id = Some ''new''\<rparr>)"
  by (simp add: on_kill_def call_def and_then_def logging_info_def stub_def no_job_def existing_def answers_def batch_operator_def
      emit_def)

text \<open>
  C5, amended. Before any job identifier is known (\<^verbatim>\<open>self.job_id\<close> is \<^verbatim>\<open>None\<close>, or
  empty), \<open>on_kill\<close> makes no remote call and returns, having logged that there is
  nothing to kill. With an identifier it makes exactly one cancel call, for that
  identifier: if the call raises, the error propagates to the caller of the hook; if it
  returns, the hook logs the success and returns.
\<close>

theorem on_kill_behaviour:
  "(job_id s = None \<or> job_id s = Some [] \<longrightarrow>
      on_kill self h s = (Returns (), s\<lparr>trace := trace s @ [Log No_job_started]\<rparr>)) \<and>
   (job_id s = Some jid \<and> jid \<noteq> [] \<and>
    cancel_materialization_job h (workspace self) (feature_view self) jid (client s) = (Inl e, c')
    \<longrightarrow> on_kill self h s =
          (Raises (Collaborator_error e),
           s\<lparr>client := c',
             trace := trace s @
               [Log (Attempting_to_kill jid),
                Cancel_job (workspace self) (feature_view self) jid (Inl e)]\<rparr>)) \<and>
   (job_id s = Some jid \<and> jid \<noteq> [] \<and>
    cancel_materialization_job h (workspace self) (feature_view self) jid (client s) = (Inr u, c')
    \<longrightarrow> on_kill self h s =
          (Returns (),
           s\<lparr>client := c',
             trace := trace s @
               [Log (Attempting_to_kill jid),
                Cancel_job (workspace self) (feature_view self) jid (Inr u),
                Log (Successfully_killed jid)]\<rparr>))"
  by (auto simp: on_kill_def call_def and_then_def logging_info_def emit_def)

theorem on_kill_behaviour_witness:
  "on_kill (batch_operator False) (stub no_job (Inl ''unreachable'') (answers [])) (fresh 0)
     = (Returns (), \<lparr>client = 0, trace = [Log No_job_started], job_id = None\<rparr>) \<and>
   on_kill (batch_operator False) (stub no_job (Inl ''unreachable'') (answers []))
     \<lparr>client = 0, trace = [], job_id = Some ''new''\<rparr>
     = (Raises (Collaborator_error ''unreachable''),
        \<lparr>client = 0,
         trace = [Log (Attempting_to_kill ''new''),
                  Cancel_job ''prod'' ''fv'' ''new'' (Inl ''unreachable'')],
         job_id = Some ''new''\<rparr>) \<and>
   on_kill (batch_operator False) (stub no_job (Inr ()) (answers []))
     \<lparr>client = 0, trace = [], job_id = Some ''new''\<rparr>
     = (Returns (),
        \<lparr>client = 0,
         trace = [Log (Attempting_to_kill ''new''),
                  Cancel_job ''prod'' ''fv'' ''new'' (Inr ()),
                  Log (Successfully_killed ''new'')],
         job_id = Some ''new''\<rparr>)"
proof -
  let ?self = "batch_operator False"
  let ?bad = "stub no_job (Inl ''unreachable'') (answers [])"
  let ?good = "stub no_job (Inr ()) (answers [])"
  let ?s = "\<lparr>client = 0, trace = [], job_id = Some ''new''\<rparr> :: (nat, string) state"
  have a: "job_id (fresh 0) = None \<or> job_id (fresh 0) = Some []"
    by (simp add: fresh_def)
  have b: "job_id ?s = Some ''new'' \<and> ''new'' \<noteq> [] \<and>
    cancel_materialization_job ?bad (workspace ?self) (feature_view ?self) ''new'' (client ?s)
      = (Inl ''unreachable'', 0)"
    by (simp add: stub_def no_job_def existing_def answers_def)
  have c: "job_id ?s = Some ''new'' \<and> ''new'' \<noteq> [] \<and>
    cancel_materialization_job ?good (workspace ?self) (feature_view ?self) ''new'' (client ?s)
      = (Inr (), 0)"
    by (simp add: stub_def no_job_def existing_def answers_def)
  show ?thesis
    using a b c
      on_kill_behaviour [of "fresh 0" ?self ?bad "''new''" "''x''" 0 "()"]
      on_kill_behaviour [of ?s ?self ?bad "''new''" "''unreachable''" 0 "()"]
      on_kill_behaviour [of ?s ?self ?good "''new''" "''unreachable''" 0 "()"]
    by (simp add: fresh_def batch_operator_def)
qed

section \<open>The run, phase by phase\<close>

lemma new_events_append: "trace s' = trace s @ evs \<Longrightarrow> new_events s s' = evs"
  by (simp add: new_events_def)

lemma only_at:
  "only K m \<Longrightarrow> m s = (r, s') \<Longrightarrow> \<exists>evs. trace s' = trace s @ evs \<and> (\<forall>e\<in>set evs. kind_of e \<in> K)"
  unfolding only_def by (metis snd_conv)

lemma only_lookup_and_decide:
  "only {K_find, K_get, K_log, K_sleep, K_cancel} (lookup_and_decide fuel self h)"
  unfolding lookup_and_decide_def
  by (auto intro!: only_and_then only_call only_mono [OF only_existing_job])

lemma only_submission:
  "only {K_submit, K_stage, K_generate, K_upload, K_ingest} (submission self h)"
proof (cases "df_generator self")
  case None
  then show ?thesis by (auto intro: only_mono [OF only_submission_direct])
next
  case (Some gen)
  then show ?thesis by (auto intro: only_mono [OF only_submission_ingest])
qed

lemma and_then_assoc: "and_then (and_then m f) g = and_then m (\<lambda>a. and_then (f a) g)"
  by (rule ext) (simp add: and_then_def split: prod.splits res.splits)

lemma execute_factored:
  "execute fuel self h =
     and_then (lookup_and_decide fuel self h)
       (\<lambda>go_on. if go_on then and_then (submission self h) (poll_to_terminal fuel self h)
                 else Pair (Returns ()))"
  by (simp add: execute_def lookup_and_decide_def and_then_assoc)

lemma execute_from_decision:
  "lookup_and_decide fuel self h s = (Returns True, s1) \<Longrightarrow>
     execute fuel self h s = and_then (submission self h) (poll_to_terminal fuel self h) s1"
  by (simp add: execute_factored and_then_Returns)

lemma execute_after_submission:
  assumes "up_to_submission fuel self h s = (Returns (Some jid), s2)"
  shows "execute fuel self h s = poll_to_terminal fuel self h jid s2"
  using assms
  by (auto simp: execute_factored up_to_submission_def and_then_def
      split: prod.splits res.splits if_splits)

lemma filter_submission_none:
  "\<forall>e\<in>set evs. kind_of e \<in> K \<Longrightarrow> K \<inter> {K_submit, K_stage, K_generate, K_upload, K_ingest} = {}
     \<Longrightarrow> filter submission_event evs = []"
  by (auto simp: filter_empty_conv submission_event_def ingest_path_event_def)

lemma filter_submission_all:
  "\<forall>e\<in>set evs. kind_of e \<in> {K_submit, K_stage, K_generate, K_upload, K_ingest}
     \<Longrightarrow> filter submission_event evs = evs"
  by (auto simp: filter_id_conv submission_event_def ingest_path_event_def)

lemma execute_submission_events:
  assumes reach: "lookup_and_decide fuel self h s = (Returns True, s1)"
  shows "filter submission_event (new_events s (snd (execute fuel self h s)))
           = new_events s1 (snd (submission self h s1))"
proof -
  obtain evs1 where 1: "trace s1 = trace s @ evs1"
      "\<forall>e\<in>set evs1. kind_of e \<in> {K_find, K_get, K_log, K_sleep, K_cancel}"
    using only_at [OF only_lookup_and_decide reach] by blast
  obtain r s2 where sub: "submission self h s1 = (r, s2)"
    by (cases "submission self h s1")
  obtain evs2 where 2: "trace s2 = trace s1 @ evs2"
      "\<forall>e\<in>set evs2. kind_of e \<in> {K_submit, K_stage, K_generate, K_upload, K_ingest}"
    using only_at [OF only_submission sub] by blast
  have "\<exists>evs3. trace (snd (execute fuel self h s)) = trace s2 @ evs3 \<and>
      (\<forall>e\<in>set evs3. kind_of e \<in> {K_get, K_log, K_sleep})"
  proof (cases r)
    case (Returns jid)
    then have "execute fuel self h s = poll_to_terminal fuel self h jid s2"
      using sub by (simp add: execute_from_decision [OF reach] and_then_Returns)
    then show ?thesis
      using only_poll_to_terminal [of fuel self h jid] unfolding only_def by simp
  next
    case (Raises e)
    then show ?thesis
      using sub by (simp add: execute_from_decision [OF reach] and_then_Raises)
  next
    case Out_of_fuel
    then show ?thesis
      using sub by (simp add: execute_from_decision [OF reach] and_then_Out_of_fuel)
  qed
  then obtain evs3 where 3: "trace (snd (execute fuel self h s)) = trace s2 @ evs3"
      "\<forall>e\<in>set evs3. kind_of e \<in> {K_get, K_log, K_sleep}"
    by blast
  have "new_events s (snd (execute fuel self h s)) = evs1 @ evs2 @ evs3"
    using 1(1) 2(1) 3(1) by (simp add: new_events_def)
  moreover have "filter submission_event evs1 = []"
    by (rule filter_submission_none [OF 1(2)]) simp
  moreover have "filter submission_event evs3 = []"
    by (rule filter_submission_none [OF 3(2)]) simp
  moreover have "filter submission_event evs2 = evs2"
    by (rule filter_submission_all [OF 2(2)])
  moreover have "new_events s1 (snd (submission self h s1)) = evs2"
    using sub 2(1) by (simp add: new_events_def)
  ultimately show ?thesis by simp
qed

lemma cancelled_lower_eq:
  "cancelled_lower = (\<lambda>st. ends_ignoring_case st ''MANUALLY_CANCELLED'')"
  by (rule ext) (rule cancelled_lower_iff)

lemma wait_for_cancel_step:
  "wait_for_cancel fuel self h jid s =
     (case get_materialization_job h (workspace self) (feature_view self) jid (client s) of
        (Inl e, c') \<Rightarrow>
          (Raises (Collaborator_error e),
           emit (Get_job (workspace self) (feature_view self) jid (Inl e)) (s\<lparr>client := c'\<rparr>))
      | (Inr j, c') \<Rightarrow>
          (if cancelled_lower (job_state j) then
             (Returns (),
              emit (Get_job (workspace self) (feature_view self) jid (Inr j)) (s\<lparr>client := c'\<rparr>))
           else
             (case fuel of
                0 \<Rightarrow> (Out_of_fuel,
                      emit (Get_job (workspace self) (feature_view self) jid (Inr j))
                        (s\<lparr>client := c'\<rparr>))
              | Suc n \<Rightarrow>
                  wait_for_cancel n self h jid
                    (emit (Sleep 60) (emit (Log Waiting_for_manually_cancelled)
                       (emit (Get_job (workspace self) (feature_view self) jid (Inr j))
                          (s\<lparr>client := c'\<rparr>)))))))"
  by (cases fuel)
    (auto simp: call_def and_then_def logging_info_def time_sleep_def
      split: prod.splits sum.splits)

lemma waiting_Cons:
  "waiting ws fv jid (j # js) =
     [Get_job ws fv jid (Inr j), Log Waiting_for_manually_cancelled, Sleep 60] @ waiting ws fv jid js"
  by (simp add: waiting_def)

lemma waiting_Nil: "waiting ws fv jid [] = []"
  by (simp add: waiting_def)

lemma wait_for_cancel_shape:
  "\<exists>js answer.
     trace (snd (wait_for_cancel fuel self h jid s)) =
       trace s @ waiting (workspace self) (feature_view self) jid js
         @ [Get_job (workspace self) (feature_view self) jid answer] \<and>
     list_all (\<lambda>j'. \<not> cancelled_lower (job_state j')) js \<and>
     (case answer of
        Inl e \<Rightarrow> fst (wait_for_cancel fuel self h jid s) = Raises (Collaborator_error e)
      | Inr j' \<Rightarrow>
          if cancelled_lower (job_state j')
          then fst (wait_for_cancel fuel self h jid s) = Returns ()
          else fst (wait_for_cancel fuel self h jid s) = Out_of_fuel \<and> length js = fuel)"
proof (induction fuel arbitrary: s)
  case 0
  obtain r c' where get:
    "get_materialization_job h (workspace self) (feature_view self) jid (client s) = (r, c')"
    by (cases "get_materialization_job h (workspace self) (feature_view self) jid (client s)")
  show ?case
    by (rule exI [of _ "[]"], rule exI [of _ r], subst (1 2 3 4) wait_for_cancel_step)
      (auto simp: get waiting_Nil split: sum.splits)
next
  case (Suc n)
  obtain r c' where get:
    "get_materialization_job h (workspace self) (feature_view self) jid (client s) = (r, c')"
    by (cases "get_materialization_job h (workspace self) (feature_view self) jid (client s)")
  show ?case
  proof (cases r)
    case (Inl e)
    show ?thesis
      by (rule exI [of _ "[]"], rule exI [of _ r], subst (1 2 3 4) wait_for_cancel_step)
        (auto simp: get Inl waiting_Nil)
  next
    case (Inr j)
    show ?thesis
    proof (cases "cancelled_lower (job_state j)")
      case True
      show ?thesis
        by (rule exI [of _ "[]"], rule exI [of _ r], subst (1 2 3 4) wait_for_cancel_step)
          (auto simp: get Inr True waiting_Nil)
    next
      case False
      let ?g = "Get_job (workspace self) (feature_view self) jid (Inr j)"
      let ?s = "emit (Sleep 60) (emit (Log Waiting_for_manually_cancelled)
                  (emit ?g (s\<lparr>client := c'\<rparr>)))"
      have step: "wait_for_cancel (Suc n) self h jid s = wait_for_cancel n self h jid ?s"
        using get Inr False by (subst wait_for_cancel_step) simp
      from Suc.IH [of ?s] obtain js answer where IH:
        "trace (snd (wait_for_cancel n self h jid ?s)) =
           trace ?s @ waiting (workspace self) (feature_view self) jid js
             @ [Get_job (workspace self) (feature_view self) jid answer]"
        "list_all (\<lambda>j'. \<not> cancelled_lower (job_state j')) js"
        "case answer of
           Inl e \<Rightarrow> fst (wait_for_cancel n self h jid ?s) = Raises (Collaborator_error e)
         | Inr j' \<Rightarrow>
             if cancelled_lower (job_state j')
             then fst (wait_for_cancel n self h jid ?s) = Returns ()
             else fst (wait_for_cancel n self h jid ?s) = Out_of_fuel \<and> length js = n"
        by blast
      have 1: "trace (snd (wait_for_cancel (Suc n) self h jid s)) =
          trace s @ waiting (workspace self) (feature_view self) jid (j # js)
            @ [Get_job (workspace self) (feature_view self) jid answer]"
        unfolding step IH(1) by (simp add: waiting_Cons)
      have 2: "list_all (\<lambda>j'. \<not> cancelled_lower (job_state j')) (j # js)"
        using IH(2) False by simp
      have 3: "case answer of
           Inl e \<Rightarrow> fst (wait_for_cancel (Suc n) self h jid s) = Raises (Collaborator_error e)
         | Inr j' \<Rightarrow>
             if cancelled_lower (job_state j')
             then fst (wait_for_cancel (Suc n) self h jid s) = Returns ()
             else fst (wait_for_cancel (Suc n) self h jid s) = Out_of_fuel \<and>
                  length (j # js) = Suc n"
        unfolding step using IH(3) by (auto split: sum.splits)
      from 1 2 3 show ?thesis by blast
    qed
  qed
qed

lemma wait_for_cancel_converges:
  assumes "\<forall>k\<le>M. get_materialization_job h (workspace self) (feature_view self) jid (c k)
              = (Inr (jw k), c (Suc k))"
    and "\<forall>k<M. \<not> cancelled_lower (job_state (jw k))"
    and "cancelled_lower (job_state (jw M))"
    and "client s = c 0" and "M \<le> fuel"
  shows "wait_for_cancel fuel self h jid s =
    (Returns (),
     s\<lparr>client := c (Suc M),
       trace := trace s @ waiting (workspace self) (feature_view self) jid (map jw [0..<M])
                  @ [Get_job (workspace self) (feature_view self) jid (Inr (jw M))]\<rparr>)"
  using assms
proof (induction M arbitrary: fuel s c jw)
  case 0
  then have "get_materialization_job h (workspace self) (feature_view self) jid (client s)
      = (Inr (jw 0), c (Suc 0))"
    by simp
  then show ?case
    using "0.prems"(3) by (subst wait_for_cancel_step) (simp add: waiting_Nil emit_def)
next
  case (Suc M)
  obtain n where fuel: "fuel = Suc n" and n: "M \<le> n"
    using Suc.prems(5) by (cases fuel) auto
  have get: "get_materialization_job h (workspace self) (feature_view self) jid (client s)
      = (Inr (jw 0), c (Suc 0))"
    using Suc.prems(1,4) by simp
  have nc: "\<not> cancelled_lower (job_state (jw 0))"
    using Suc.prems(2) by simp
  let ?g = "Get_job (workspace self) (feature_view self) jid (Inr (jw 0))"
  let ?s = "emit (Sleep 60) (emit (Log Waiting_for_manually_cancelled)
              (emit ?g (s\<lparr>client := c (Suc 0)\<rparr>)))"
  have step: "wait_for_cancel fuel self h jid s = wait_for_cancel n self h jid ?s"
    unfolding fuel using get nc by (subst wait_for_cancel_step) simp
  have p1: "\<forall>k\<le>M. get_materialization_job h (workspace self) (feature_view self) jid (c (Suc k))
              = (Inr (jw (Suc k)), c (Suc (Suc k)))"
    using Suc.prems(1) by simp
  have p2: "\<forall>k<M. \<not> cancelled_lower (job_state (jw (Suc k)))"
    using Suc.prems(2) by simp
  have p4: "client ?s = c (Suc 0)"
    by simp
  have IH: "wait_for_cancel n self h jid ?s =
    (Returns (),
     ?s\<lparr>client := c (Suc (Suc M)),
       trace := trace ?s @ waiting (workspace self) (feature_view self) jid
                    (map (\<lambda>k. jw (Suc k)) [0..<M])
                  @ [Get_job (workspace self) (feature_view self) jid (Inr (jw (Suc M)))]\<rparr>)"
    by (rule Suc.IH [where c = "\<lambda>k. c (Suc k)" and jw = "\<lambda>k. jw (Suc k)",
          OF p1 p2 Suc.prems(3) p4 n])
  have shift: "map jw [0..<Suc M] = jw 0 # map (\<lambda>k. jw (Suc k)) [0..<M]"
    by (simp add: upt_conv_Cons map_Suc_upt [symmetric] del: upt_Suc)
  show ?case
    unfolding step IH shift by (simp add: waiting_Cons emit_def)
qed


lemma submission_first:
  "\<exists>e evs. trace (snd (submission self h s)) = trace s @ e # evs \<and> submission_event e"
  by (cases "df_generator self")
    (auto simp: submission_def ingest_feature_table_with_pandas_df_def call_def and_then_def
      emit_def submission_event_def ingest_path_event_def split: prod.splits sum.splits res.splits)

lemma submit_and_poll_trace:
  "\<exists>e rest. trace (snd (and_then (submission self h) (poll_to_terminal fuel self h) s))
               = trace s @ e # rest \<and>
             submission_event e \<and> (\<forall>x\<in>set (e # rest). kind_of x \<noteq> K_cancel)"
proof -
  let ?K = "{K_submit, K_stage, K_generate, K_upload, K_ingest, K_get, K_log, K_sleep}"
  let ?m = "and_then (submission self h) (poll_to_terminal fuel self h)"
  have "only ?K ?m"
    by (intro only_and_then only_mono [OF only_submission] only_mono [OF only_poll_to_terminal])
      auto
  then obtain evs where evs: "trace (snd (?m s)) = trace s @ evs" "\<forall>x\<in>set evs. kind_of x \<in> ?K"
    unfolding only_def by blast
  obtain e evs' where first: "trace (snd (submission self h s)) = trace s @ e # evs'"
      "submission_event e"
    using submission_first by blast
  obtain r s2 where sub: "submission self h s = (r, s2)"
    by (cases "submission self h s")
  have "\<exists>evs3. trace (snd (?m s)) = trace s2 @ evs3"
  proof (cases r)
    case (Returns jid)
    then show ?thesis
      using sub only_poll_to_terminal [of fuel self h jid]
      unfolding only_def by (auto simp: and_then_def)
  qed (use sub in \<open>auto simp: and_then_def\<close>)
  then obtain evs3 where all: "trace (snd (?m s)) = trace s @ e # (evs' @ evs3)"
    using first(1) sub by auto
  with evs have "evs = e # (evs' @ evs3)" by simp
  with evs(2) have "\<forall>x\<in>set (e # (evs' @ evs3)). kind_of x \<in> ?K" by simp
  then have "\<forall>x\<in>set (e # (evs' @ evs3)). kind_of x \<noteq> K_cancel" by fastforce
  with all first(2) show ?thesis by blast
qed

lemma trace_blindI:
  assumes "\<And>s. \<exists>evs. trace (snd (m s)) = trace s @ evs \<and>
        (\<forall>tr. m (s\<lparr>trace := tr\<rparr>) = (fst (m s), (snd (m s))\<lparr>trace := tr @ evs\<rparr>))"
  shows "trace_blind m"
  using assms by (simp add: trace_blind_def)

lemma trace_blind_and_then:
  assumes m: "trace_blind m" and f: "\<And>a. trace_blind (f a)"
  shows "trace_blind (and_then m f)"
proof (rule trace_blindI)
  fix s
  obtain r s1 where ms: "m s = (r, s1)" by (cases "m s")
  from m obtain evs1 where 1: "trace s1 = trace s @ evs1"
      "\<And>tr. m (s\<lparr>trace := tr\<rparr>) = (r, s1\<lparr>trace := tr @ evs1\<rparr>)"
    unfolding trace_blind_def using ms by (metis fst_conv snd_conv)
  show "\<exists>evs. trace (snd (and_then m f s)) = trace s @ evs \<and>
      (\<forall>tr. and_then m f (s\<lparr>trace := tr\<rparr>)
         = (fst (and_then m f s), (snd (and_then m f s))\<lparr>trace := tr @ evs\<rparr>))"
  proof (cases r)
    case (Returns a)
    from f [of a] obtain evs2 where 2: "trace (snd (f a s1)) = trace s1 @ evs2"
        "\<And>tr. f a (s1\<lparr>trace := tr\<rparr>) = (fst (f a s1), (snd (f a s1))\<lparr>trace := tr @ evs2\<rparr>)"
      unfolding trace_blind_def by blast
    have "trace (snd (and_then m f s)) = trace s @ (evs1 @ evs2)"
      using ms Returns 1(1) 2(1) by (simp add: and_then_def)
    moreover have "and_then m f (s\<lparr>trace := tr\<rparr>)
         = (fst (and_then m f s), (snd (and_then m f s))\<lparr>trace := tr @ (evs1 @ evs2)\<rparr>)" for tr
      using ms Returns 1(2) [of tr] 2(2) [of "tr @ evs1"] by (simp add: and_then_def)
    ultimately show ?thesis by blast
  next
    case (Raises e)
    then show ?thesis using ms 1 by (auto simp: and_then_def)
  next
    case Out_of_fuel
    then show ?thesis using ms 1 by (auto simp: and_then_def)
  qed
qed

lemma trace_blind_call: "trace_blind (call f ev)"
  by (rule trace_blindI) (auto simp: call_def emit_def split: prod.splits)

lemma trace_blind_Pair: "trace_blind (Pair r)"
  by (rule trace_blindI) simp

lemma trace_blind_logging_info: "trace_blind (logging_info m)"
  by (rule trace_blindI) (simp add: logging_info_def emit_def)

lemma trace_blind_time_sleep: "trace_blind (time_sleep n)"
  by (rule trace_blindI) (simp add: time_sleep_def emit_def)

lemma trace_blind_set_job_id: "trace_blind (\<lambda>s. (r, s\<lparr>job_id := x\<rparr>))"
  by (rule trace_blindI) simp

lemma trace_blind_submission: "trace_blind (submission self h)"
  unfolding submission_def ingest_feature_table_with_pandas_df_def
  by (auto intro!: trace_blind_and_then trace_blind_call trace_blind_set_job_id
      split: option.splits)

lemma trace_blind_log_progress: "trace_blind (log_progress j)"
  by (auto simp: log_progress_def intro!: trace_blind_Pair trace_blind_logging_info
      split: option.splits)

lemma trace_blind_final_result: "trace_blind (final_result j)"
  by (simp add: final_result_def trace_blind_Pair)

lemma trace_blind_poll: "trace_blind (poll fuel self h jid j)"
proof (induction fuel arbitrary: j)
  case 0
  have "poll 0 self h jid j = (if running_upper (job_state j) then Pair Out_of_fuel
      else final_result j)"
    by (rule ext) simp
  then show ?case by (simp add: trace_blind_Pair trace_blind_final_result)
next
  case (Suc n)
  have "poll (Suc n) self h jid j =
     (if running_upper (job_state j) then
        and_then (log_progress j)
          (\<lambda>_. and_then (time_sleep 60)
             (\<lambda>_. and_then
                (call (get_materialization_job h (workspace self) (feature_view self) jid)
                   (Get_job (workspace self) (feature_view self) jid))
                (poll n self h jid)))
      else final_result j)"
    by (rule ext) simp
  then show ?case
    using Suc
    by (auto intro!: trace_blind_and_then trace_blind_call trace_blind_time_sleep
        trace_blind_log_progress trace_blind_final_result)
qed

lemma trace_blind_submit_and_poll:
  "trace_blind (and_then (submission self h) (poll_to_terminal fuel self h))"
  unfolding poll_to_terminal_def
  by (intro trace_blind_and_then trace_blind_submission trace_blind_call trace_blind_poll)

lemma log_progress_cases:
  "log_progress j s = (Raises IndexError, s) \<or>
   (\<exists>m. log_progress j s = (Returns (), emit (Log m) s))"
  by (auto simp: log_progress_def logging_info_def split: option.splits)

lemma poll_out_of_fuel:
  "running_upper (job_state j0) \<Longrightarrow> poll 0 self h jid j0 s = (Out_of_fuel, s)"
  by simp

lemma poll_log_raises:
  "running_upper (job_state j0) \<Longrightarrow> log_progress j0 s = (Raises e, s1) \<Longrightarrow>
     poll (Suc n) self h jid j0 s = (Raises e, s1)"
  by (simp add: and_then_def)

lemma poll_get_raises:
  "running_upper (job_state j0) \<Longrightarrow> log_progress j0 s = (Returns (), s1) \<Longrightarrow>
   get_materialization_job h (workspace self) (feature_view self) jid (client s1) = (Inl e, c') \<Longrightarrow>
     poll (Suc n) self h jid j0 s =
       (Raises (Collaborator_error e),
        emit (Get_job (workspace self) (feature_view self) jid (Inl e))
          ((emit (Sleep 60) s1)\<lparr>client := c'\<rparr>))"
  by (simp add: and_then_def call_def time_sleep_def)

lemma poll_get_returns:
  "running_upper (job_state j0) \<Longrightarrow> log_progress j0 s = (Returns (), s1) \<Longrightarrow>
   get_materialization_job h (workspace self) (feature_view self) jid (client s1) = (Inr j1, c') \<Longrightarrow>
     poll (Suc n) self h jid j0 s =
       poll n self h jid j1
         (emit (Get_job (workspace self) (feature_view self) jid (Inr j1))
            ((emit (Sleep 60) s1)\<lparr>client := c'\<rparr>))"
  by (simp add: and_then_def call_def time_sleep_def)

section \<open>Cancel and replace\<close>

text \<open>
  C2, as stated, fails: the loop of lines 100-110 does not wait for the state to be
  exactly MANUALLY_CANCELLED. Its test lowers the fetched state and looks at its end, so
  here the single fetch returns the state BACKFILL_MANUALLY_CANCELLED and the
  submission follows at once.
\<close>

theorem cancel_counterexample:
  "execute 0 (batch_operator False)
     (stub (existing (job_in ''old'' ''RUNNING'' None)) (Inr ())
        (answers [Inr (job_in ''old'' ''BACKFILL_MANUALLY_CANCELLED'' None),
                  Inr (job_in ''new'' ''SUCCESS'' None)]))
     (fresh 0)
   = (Returns (),
      \<lparr>client = 2,
       trace = [Find_job ''prod'' ''fv'' True False ''2022-01-01'' ''2022-01-02'' ''batch''
                  (Inr (Some (job_in ''old'' ''RUNNING'' None))),
                Log (Existing_job_found (job_in ''old'' ''RUNNING'' None)),
                Log Job_running_cancelling,
                Cancel_job ''prod'' ''fv'' ''old'' (Inr ()),
                Get_job ''prod'' ''fv'' ''old''
                  (Inr (job_in ''old'' ''BACKFILL_MANUALLY_CANCELLED'' None)),
                Submit_job ''prod'' ''fv'' True False ''2022-01-01'' ''2022-01-02'' False False
                  (Inr new_job),
                Get_job ''prod'' ''fv'' ''new'' (Inr (job_in ''new'' ''SUCCESS'' None))],
       job_id = Some ''new''\<rparr>)"
  by code_simp

text \<open>
  C2, amended. When the lookup finds a job whose state ends, ignoring case, in RUNNING,
  \<open>execute\<close> logs, makes one cancel call for that job's identifier, and then fetches
  that job again and again, logging and sleeping 60 after each fetch whose state does not
  end, ignoring case, in MANUALLY_CANCELLED. Every run, finished or not, is the lookup,
  the two log lines, the cancel call, one fetch, log line and sleep for each such record
  \<open>js\<close>, and then:
  \<^item> nothing, if the cancel call raised, which ends the run;
  \<^item> a fetch that raised, which ends the run;
  \<^item> a fetch of one more such record, if the fuel is used up: the loop has then run as
    many times as there is fuel;
  \<^item> a fetch whose state ends, ignoring case, in MANUALLY_CANCELLED, followed at once by
    the first call of the submission: the cancellation does not return early.
  So no call of the submission comes before the cancellation is observed, and no second
  cancel call is made. And when the client answers the cancel call and the fetches
  \<open>0, ..., M\<close> of the job, the last of them with such a state and none before, then with
  fuel at least \<open>M\<close> the run reaches the submission after exactly these \<open>M + 1\<close>
  fetches.
\<close>

theorem cancel_and_replace:
  assumes find: "find_materialization_job h (workspace self) (feature_view self) (online self)
      (offline self) (start_time self) (end_time self)
      (if df_generator self \<noteq> None then ''ingest'' else ''batch'') (client s) = (Inr (Some j), c1)"
    and running: "ends_ignoring_case (job_state j) ''RUNNING''"
  shows "(\<exists>r js rest.
      new_events s (snd (execute fuel self h s)) =
        [Find_job (workspace self) (feature_view self) (online self) (offline self)
           (start_time self) (end_time self)
           (if df_generator self \<noteq> None then ''ingest'' else ''batch'') (Inr (Some j)),
         Log (Existing_job_found j), Log Job_running_cancelling,
         Cancel_job (workspace self) (feature_view self) (job_ident j) r]
        @ waiting (workspace self) (feature_view self) (job_ident j) js @ rest \<and>
      r = fst (cancel_materialization_job h (workspace self) (feature_view self) (job_ident j) c1) \<and>
      list_all (\<lambda>j'. \<not> ends_ignoring_case (job_state j') ''MANUALLY_CANCELLED'') js \<and>
      (case r of
         Inl e \<Rightarrow>
           js = [] \<and> rest = [] \<and> fst (execute fuel self h s) = Raises (Collaborator_error e)
       | Inr u \<Rightarrow>
           (\<exists>e. rest = [Get_job (workspace self) (feature_view self) (job_ident j) (Inl e)] \<and>
                fst (execute fuel self h s) = Raises (Collaborator_error e)) \<or>
           (\<exists>j'. rest = [Get_job (workspace self) (feature_view self) (job_ident j) (Inr j')] \<and>
                \<not> ends_ignoring_case (job_state j') ''MANUALLY_CANCELLED'' \<and>
                length js = fuel \<and> fst (execute fuel self h s) = Out_of_fuel) \<or>
           (\<exists>j' e' rest'.
                rest = Get_job (workspace self) (feature_view self) (job_ident j) (Inr j')
                         # e' # rest' \<and>
                ends_ignoring_case (job_state j') ''MANUALLY_CANCELLED'' \<and>
                submission_event e' \<and> list_all (\<lambda>x. kind_of x \<noteq> K_cancel) (e' # rest')))) \<and>
    (\<forall>M c jw u.
       cancel_materialization_job h (workspace self) (feature_view self) (job_ident j) c1
         = (Inr u, c 0) \<and>
       (\<forall>k\<le>M. get_materialization_job h (workspace self) (feature_view self) (job_ident j) (c k)
                 = (Inr (jw k), c (Suc k))) \<and>
       (\<forall>k<M. \<not> ends_ignoring_case (job_state (jw k)) ''MANUALLY_CANCELLED'') \<and>
       ends_ignoring_case (job_state (jw M)) ''MANUALLY_CANCELLED'' \<and> M \<le> fuel
       \<longrightarrow> execute fuel self h s =
             and_then (submission self h) (poll_to_terminal fuel self h)
               (s\<lparr>client := c (Suc M),
                  trace := trace s @
                    [Find_job (workspace self) (feature_view self) (online self) (offline self)
                       (start_time self) (end_time self)
                       (if df_generator self \<noteq> None then ''ingest'' else ''batch'')
                       (Inr (Some j)),
                     Log (Existing_job_found j), Log Job_running_cancelling,
                     Cancel_job (workspace self) (feature_view self) (job_ident j) (Inr u)]
                    @ waiting (workspace self) (feature_view self) (job_ident j) (map jw [0..<M])
                    @ [Get_job (workspace self) (feature_view self) (job_ident j)
                         (Inr (jw M))]\<rparr>))"
proof -
  let ?find = "Find_job (workspace self) (feature_view self) (online self) (offline self)
         (start_time self) (end_time self)
         (if df_generator self \<noteq> None then ''ingest'' else ''batch'') (Inr (Some j))"
  let ?jid = "job_ident j"
  let ?ws = "workspace self" and ?fv = "feature_view self"
  let ?s0 = "emit (Log Job_running_cancelling) (emit (Log (Existing_job_found j))
               (emit ?find (s\<lparr>client := c1\<rparr>)))"
  let ?cancel = "Cancel_job ?ws ?fv ?jid"
  let ?get = "Get_job ?ws ?fv ?jid"
  let ?pre = "\<lambda>r. [?find, Log (Existing_job_found j), Log Job_running_cancelling, ?cancel r]"
  let ?nc = "\<lambda>j'. \<not> ends_ignoring_case (job_state j') ''MANUALLY_CANCELLED''"
  have run: "running_lower (job_state j)"
    using running by (simp add: running_lower_iff)
  obtain rc c2 where cancel: "cancel_materialization_job h ?ws ?fv ?jid c1 = (rc, c2)"
    by (cases "cancel_materialization_job h ?ws ?fv ?jid c1")
  have decide_wait: "lookup_and_decide fuel self h s =
        (case rw of Returns _ \<Rightarrow> Returns True | Raises e \<Rightarrow> Raises e | Out_of_fuel \<Rightarrow> Out_of_fuel,
         s4)"
    if "rc = Inr u" and "wait_for_cancel fuel self h ?jid (emit (?cancel (Inr u)) (?s0\<lparr>client := c2\<rparr>))
      = (rw, s4)" for u rw s4
    using find run cancel that
    by (simp add: lookup_and_decide_def existing_job_def call_def and_then_def logging_info_def
        split: res.splits)
  have A: "\<exists>r js rest.
      new_events s (snd (execute fuel self h s)) = ?pre r @ waiting ?ws ?fv ?jid js @ rest \<and>
      r = fst (cancel_materialization_job h ?ws ?fv ?jid c1) \<and>
      list_all ?nc js \<and>
      (case r of
         Inl e \<Rightarrow>
           js = [] \<and> rest = [] \<and> fst (execute fuel self h s) = Raises (Collaborator_error e)
       | Inr u \<Rightarrow>
           (\<exists>e. rest = [?get (Inl e)] \<and>
                fst (execute fuel self h s) = Raises (Collaborator_error e)) \<or>
           (\<exists>j'. rest = [?get (Inr j')] \<and> ?nc j' \<and>
                length js = fuel \<and> fst (execute fuel self h s) = Out_of_fuel) \<or>
           (\<exists>j' e' rest'.
                rest = ?get (Inr j') # e' # rest' \<and>
                ends_ignoring_case (job_state j') ''MANUALLY_CANCELLED'' \<and>
                submission_event e' \<and> list_all (\<lambda>x. kind_of x \<noteq> K_cancel) (e' # rest')))"
  proof (cases rc)
    case (Inl e)
    have "lookup_and_decide fuel self h s =
        (Raises (Collaborator_error e), emit (?cancel (Inl e)) (?s0\<lparr>client := c2\<rparr>))"
      using find run cancel Inl
      by (simp add: lookup_and_decide_def existing_job_def call_def and_then_def logging_info_def)
    then have ex: "execute fuel self h s =
        (Raises (Collaborator_error e), emit (?cancel (Inl e)) (?s0\<lparr>client := c2\<rparr>))"
      by (simp add: execute_factored and_then_Raises)
    have "new_events s (snd (execute fuel self h s)) = ?pre (Inl e) @ waiting ?ws ?fv ?jid [] @ []"
      unfolding ex by (simp add: new_events_def waiting_Nil)
    then show ?thesis
      using cancel Inl ex
      by (intro exI [of _ "Inl e"] exI [of _ "[]"]) simp
  next
    case (Inr u)
    let ?s3 = "emit (?cancel (Inr u)) (?s0\<lparr>client := c2\<rparr>)"
    obtain rw s4 where wait: "wait_for_cancel fuel self h ?jid ?s3 = (rw, s4)"
      by (cases "wait_for_cancel fuel self h ?jid ?s3")
    note sh = wait_for_cancel_shape [of fuel self h ?jid ?s3, unfolded wait fst_conv snd_conv]
    from sh obtain js answer where shape:
      "trace s4 = trace ?s3 @ waiting ?ws ?fv ?jid js @ [?get answer]"
      "list_all (\<lambda>j'. \<not> cancelled_lower (job_state j')) js"
      "case answer of
         Inl e \<Rightarrow> rw = Raises (Collaborator_error e)
       | Inr j' \<Rightarrow>
           if cancelled_lower (job_state j') then rw = Returns ()
           else rw = Out_of_fuel \<and> length js = fuel"
      by blast
    have js: "list_all ?nc js"
      using shape(2) by (simp add: cancelled_lower_eq)
    have decide: "lookup_and_decide fuel self h s =
        (case rw of Returns _ \<Rightarrow> Returns True | Raises e \<Rightarrow> Raises e | Out_of_fuel \<Rightarrow> Out_of_fuel,
         s4)"
      by (rule decide_wait [OF Inr wait])
    have pre: "trace s4 = trace s @ ?pre (Inr u) @ waiting ?ws ?fv ?jid js @ [?get answer]"
      using shape(1) by simp
    have r: "fst (cancel_materialization_job h ?ws ?fv ?jid c1) = Inr u"
      using cancel Inr by simp
    show ?thesis
    proof (cases answer)
      case (Inl e)
      then have rw: "rw = Raises (Collaborator_error e)"
        using shape(3) by simp
      have ex: "execute fuel self h s = (Raises (Collaborator_error e), s4)"
        using decide rw by (simp add: execute_factored and_then_def)
      have "new_events s (snd (execute fuel self h s)) =
          ?pre (Inr u) @ waiting ?ws ?fv ?jid js @ [?get (Inl e)]"
        unfolding ex using pre Inl by (simp add: new_events_def)
      then show ?thesis
        using r js ex
        by (intro exI [of _ "Inr u"] exI [of _ js] exI [of _ "[?get (Inl e)]"]) simp
    next
      case (Inr j')
      show ?thesis
      proof (cases "cancelled_lower (job_state j')")
        case False
        then have rw: "rw = Out_of_fuel" and len: "length js = fuel"
          using shape(3) Inr by simp_all
        have ex: "execute fuel self h s = (Out_of_fuel, s4)"
          using decide rw by (simp add: execute_factored and_then_def)
        have "new_events s (snd (execute fuel self h s)) =
            ?pre (Inr u) @ waiting ?ws ?fv ?jid js @ [?get (Inr j')]"
          unfolding ex using pre Inr by (simp add: new_events_def)
        moreover have "?nc j'"
          using False by (simp add: cancelled_lower_iff)
        ultimately show ?thesis
          using r js ex len
          by (intro exI [of _ "Inr u"] exI [of _ js] exI [of _ "[?get (Inr j')]"]) simp
      next
        case True
        then have rw: "rw = Returns ()"
          using shape(3) Inr by simp
        have "execute fuel self h s =
            and_then (submission self h) (poll_to_terminal fuel self h) s4"
          using decide rw by (simp add: execute_from_decision)
        then obtain e' rest' where rest:
          "trace (snd (execute fuel self h s)) = trace s4 @ e' # rest'" "submission_event e'"
          "\<forall>x\<in>set (e' # rest'). kind_of x \<noteq> K_cancel"
          using submit_and_poll_trace [of self h fuel s4] by auto
        have "new_events s (snd (execute fuel self h s)) =
            ?pre (Inr u) @ waiting ?ws ?fv ?jid js @ (?get (Inr j') # e' # rest')"
          using rest(1) pre Inr by (simp add: new_events_def)
        moreover have "ends_ignoring_case (job_state j') ''MANUALLY_CANCELLED''"
          using True by (simp add: cancelled_lower_iff)
        moreover have "list_all (\<lambda>x. kind_of x \<noteq> K_cancel) (e' # rest')"
          using rest(3) by (simp add: list_all_iff)
        ultimately show ?thesis
          using r js rest(2)
          by (intro exI [of _ "Inr u"] exI [of _ js] exI [of _ "?get (Inr j') # e' # rest'"])
            simp
      qed
    qed
  qed
  have B: "execute fuel self h s =
             and_then (submission self h) (poll_to_terminal fuel self h)
               (s\<lparr>client := c (Suc M),
                  trace := trace s @ ?pre (Inr u) @ waiting ?ws ?fv ?jid (map jw [0..<M])
                    @ [?get (Inr (jw M))]\<rparr>)"
    if c: "cancel_materialization_job h ?ws ?fv ?jid c1 = (Inr u, c 0)"
      and f: "\<forall>k\<le>M. get_materialization_job h ?ws ?fv ?jid (c k) = (Inr (jw k), c (Suc k))"
      and w: "\<forall>k<M. ?nc (jw k)"
      and d: "ends_ignoring_case (job_state (jw M)) ''MANUALLY_CANCELLED''"
      and m: "M \<le> fuel"
    for M c jw u
  proof -
    let ?s3 = "emit (?cancel (Inr u)) (?s0\<lparr>client := c 0\<rparr>)"
    have rc: "rc = Inr u" and c2: "c2 = c 0"
      using c cancel by simp_all
    have w': "\<forall>k<M. \<not> cancelled_lower (job_state (jw k))"
      using w by (simp add: cancelled_lower_iff)
    have d': "cancelled_lower (job_state (jw M))"
      using d by (simp add: cancelled_lower_iff)
    have s3: "client ?s3 = c 0"
      by simp
    note conv = wait_for_cancel_converges [OF f w' d' s3 m]
    have "lookup_and_decide fuel self h s =
        (Returns True,
         ?s3\<lparr>client := c (Suc M),
            trace := trace ?s3 @ waiting ?ws ?fv ?jid (map jw [0..<M]) @ [?get (Inr (jw M))]\<rparr>)"
      using decide_wait [OF rc conv [unfolded c2 [symmetric]]] by (simp add: c2)
    then have "execute fuel self h s =
        and_then (submission self h) (poll_to_terminal fuel self h)
          (?s3\<lparr>client := c (Suc M),
            trace := trace ?s3 @ waiting ?ws ?fv ?jid (map jw [0..<M]) @ [?get (Inr (jw M))]\<rparr>)"
      by (rule execute_from_decision)
    then show ?thesis
      by (simp add: emit_def)
  qed
  show ?thesis
    using A B by blast
qed

theorem cancel_and_replace_witness:
  "ends_ignoring_case (job_state (job_in ''old'' ''BACKFILL_RUNNING'' None)) ''RUNNING'' \<and>
   execute 1 (batch_operator False)
     (stub (existing (job_in ''old'' ''BACKFILL_RUNNING'' None)) (Inr ())
        (answers [Inr (job_in ''old'' ''CANCELLING'' None),
                  Inr (job_in ''old'' ''MANUALLY_CANCELLED'' None),
                  Inr (job_in ''new'' ''SUCCESS'' None)]))
     (fresh 0)
   = and_then
       (submission (batch_operator False)
          (stub (existing (job_in ''old'' ''BACKFILL_RUNNING'' None)) (Inr ())
             (answers [Inr (job_in ''old'' ''CANCELLING'' None),
                       Inr (job_in ''old'' ''MANUALLY_CANCELLED'' None),
                       Inr (job_in ''new'' ''SUCCESS'' None)])))
       (poll_to_terminal 1 (batch_operator False)
          (stub (existing (job_in ''old'' ''BACKFILL_RUNNING'' None)) (Inr ())
             (answers [Inr (job_in ''old'' ''CANCELLING'' None),
                       Inr (job_in ''old'' ''MANUALLY_CANCELLED'' None),
                       Inr (job_in ''new'' ''SUCCESS'' None)])))
       \<lparr>client = 2,
        trace = [Find_job ''prod'' ''fv'' True False ''2022-01-01'' ''2022-01-02'' ''batch''
                   (Inr (Some (job_in ''old'' ''BACKFILL_RUNNING'' None))),
                 Log (Existing_job_found (job_in ''old'' ''BACKFILL_RUNNING'' None)),
                 Log Job_running_cancelling,
                 Cancel_job ''prod'' ''fv'' ''old'' (Inr ()),
                 Get_job ''prod'' ''fv'' ''old'' (Inr (job_in ''old'' ''CANCELLING'' None)),
                 Log Waiting_for_manually_cancelled,
                 Sleep 60,
                 Get_job ''prod'' ''fv'' ''old''
                   (Inr (job_in ''old'' ''MANUALLY_CANCELLED'' None))],
        job_id = None\<rparr> \<and>
   execute 1 (batch_operator False)
     (stub (existing (job_in ''old'' ''BACKFILL_RUNNING'' None)) (Inr ())
        (answers [Inr (job_in ''old'' ''CANCELLING'' None),
                  Inr (job_in ''old'' ''MANUALLY_CANCELLED'' None),
                  Inr (job_in ''new'' ''SUCCESS'' None)]))
     (fresh 0)
   = (Returns (),
      \<lparr>client = 3,
       trace = [Find_job ''prod'' ''fv'' True False ''2022-01-01'' ''2022-01-02'' ''batch''
                  (Inr (Some (job_in ''old'' ''BACKFILL_RUNNING'' None))),
                Log (Existing_job_found (job_in ''old'' ''BACKFILL_RUNNING'' None)),
                Log Job_running_cancelling,
                Cancel_job ''prod'' ''fv'' ''old'' (Inr ()),
                Get_job ''prod'' ''fv'' ''old'' (Inr (job_in ''old'' ''CANCELLING'' None)),
                Log Waiting_for_manually_cancelled,
                Sleep 60,
                Get_job ''prod'' ''fv'' ''old''
                  (Inr (job_in ''old'' ''MANUALLY_CANCELLED'' None)),
                Submit_job ''prod'' ''fv'' True False ''2022-01-01'' ''2022-01-02'' False False
                  (Inr new_job),
                Get_job ''prod'' ''fv'' ''new'' (Inr (job_in ''new'' ''SUCCESS'' None))],
       job_id = Some ''new''\<rparr>)"
proof -
  let ?self = "batch_operator False"
  let ?j = "job_in ''old'' ''BACKFILL_RUNNING'' None"
  let ?xs = "[Inr (job_in ''old'' ''CANCELLING'' None),
              Inr (job_in ''old'' ''MANUALLY_CANCELLED'' None),
              Inr (job_in ''new'' ''SUCCESS'' None)] :: (string + job) list"
  let ?h = "stub (existing ?j) (Inr ()) (answers ?xs)"
  let ?jw = "\<lambda>k::nat. if k = 0 then job_in ''old'' ''CANCELLING'' None
                      else job_in ''old'' ''MANUALLY_CANCELLED'' None"
  have a: "find_materialization_job ?h (workspace ?self) (feature_view ?self) (online ?self)
      (offline ?self) (start_time ?self) (end_time ?self)
      (if df_generator ?self \<noteq> None then ''ingest'' else ''batch'') (client (fresh 0))
      = (Inr (Some ?j), 0)"
    by (simp add: stub_def existing_def)
  have b: "ends_ignoring_case (job_state ?j) ''RUNNING''"
    by code_simp
  have c: "cancel_materialization_job ?h (workspace ?self) (feature_view ?self) (job_ident ?j) 0
      = (Inr (), (\<lambda>k. k) 0)"
    by (simp add: stub_def)
  have d: "\<forall>k\<le>1. get_materialization_job ?h (workspace ?self) (feature_view ?self) (job_ident ?j)
      ((\<lambda>k. k) k) = (Inr (?jw k), (\<lambda>k. k) (Suc k))"
    by (simp add: stub_def answers_def le_Suc_eq)
  have e: "\<forall>k<1. \<not> ends_ignoring_case (job_state (?jw k)) ''MANUALLY_CANCELLED''"
  proof -
    have "\<not> ends_ignoring_case (job_state (job_in ''old'' ''CANCELLING'' None)) ''MANUALLY_CANCELLED''"
      by code_simp
    then show ?thesis by simp
  qed
  have f: "ends_ignoring_case (job_state (?jw 1)) ''MANUALLY_CANCELLED''"
  proof -
    have "ends_ignoring_case (job_state (job_in ''old'' ''MANUALLY_CANCELLED'' None))
        ''MANUALLY_CANCELLED''"
      by code_simp
    then show ?thesis by simp
  qed
  have g: "(1::nat) \<le> 1" by simp
  note all = cancel_and_replace [OF a b, of 1, THEN conjunct2, rule_format]
  have hyps: "cancel_materialization_job ?h (workspace ?self) (feature_view ?self) (job_ident ?j) 0
      = (Inr (), (\<lambda>k. k) 0) \<and>
    (\<forall>k\<le>1. get_materialization_job ?h (workspace ?self) (feature_view ?self) (job_ident ?j)
      ((\<lambda>k. k) k) = (Inr (?jw k), (\<lambda>k. k) (Suc k))) \<and>
    (\<forall>k<1. \<not> ends_ignoring_case (job_state (?jw k)) ''MANUALLY_CANCELLED'') \<and>
    ends_ignoring_case (job_state (?jw 1)) ''MANUALLY_CANCELLED'' \<and> (1::nat) \<le> 1"
    using c d e f g by blast
  note inst = all [where c = "\<lambda>k. k" and jw = "?jw" and M = 1 and u = "()", OF hyps]
  have run: "execute 1 ?self ?h (fresh 0)
   = (Returns (),
      \<lparr>client = 3,
       trace = [Find_job ''prod'' ''fv'' True False ''2022-01-01'' ''2022-01-02'' ''batch''
                  (Inr (Some ?j)),
                Log (Existing_job_found ?j),
                Log Job_running_cancelling,
                Cancel_job ''prod'' ''fv'' ''old'' (Inr ()),
                Get_job ''prod'' ''fv'' ''old'' (Inr (job_in ''old'' ''CANCELLING'' None)),
                Log Waiting_for_manually_cancelled,
                Sleep 60,
                Get_job ''prod'' ''fv'' ''old''
                  (Inr (job_in ''old'' ''MANUALLY_CANCELLED'' None)),
                Submit_job ''prod'' ''fv'' True False ''2022-01-01'' ''2022-01-02'' False False
                  (Inr new_job),
                Get_job ''prod'' ''fv'' ''new'' (Inr (job_in ''new'' ''SUCCESS'' None))],
       job_id = Some ''new''\<rparr>)"
    by code_simp
  have w: "waiting ''prod'' ''fv'' ''old'' (map ?jw [0..<1]) =
      [Get_job ''prod'' ''fv'' ''old'' (Inr (job_in ''old'' ''CANCELLING'' None)),
       Log Waiting_for_manually_cancelled, Sleep 60]"
    by (simp add: waiting_def)
  have concl: "execute 1 ?self ?h (fresh 0)
   = and_then (submission ?self ?h) (poll_to_terminal 1 ?self ?h)
       \<lparr>client = 2,
        trace = [Find_job ''prod'' ''fv'' True False ''2022-01-01'' ''2022-01-02'' ''batch''
                   (Inr (Some ?j)),
                 Log (Existing_job_found ?j),
                 Log Job_running_cancelling,
                 Cancel_job ''prod'' ''fv'' ''old'' (Inr ()),
                 Get_job ''prod'' ''fv'' ''old'' (Inr (job_in ''old'' ''CANCELLING'' None)),
                 Log Waiting_for_manually_cancelled,
                 Sleep 60,
                 Get_job ''prod'' ''fv'' ''old''
                   (Inr (job_in ''old'' ''MANUALLY_CANCELLED'' None))],
        job_id = None\<rparr>"
    using inst by (simp add: waiting_def batch_operator_def job_in_def fresh_def numeral_2_eq_2)
  show ?thesis
    using b concl run by blast
qed

section \<open>A found job that is neither running nor successful\<close>

lemma submission_find_update [simp]:
  "submission self (h\<lparr>find_materialization_job := f\<rparr>) = submission self h"
  by (cases "df_generator self")
    (simp_all add: submission_def ingest_feature_table_with_pandas_df_def)

lemma poll_find_update [simp]:
  "poll fuel self (h\<lparr>find_materialization_job := f\<rparr>) jid = poll fuel self h jid"
proof (induction fuel)
  case 0
  show ?case by (intro ext) simp
next
  case (Suc n)
  show ?case by (intro ext) (simp add: Suc)
qed

lemma poll_to_terminal_find_update [simp]:
  "poll_to_terminal fuel self (h\<lparr>find_materialization_job := f\<rparr>) = poll_to_terminal fuel self h"
  by (intro ext) (simp add: poll_to_terminal_def)

text \<open>
  C10. When the lookup finds a job whose state ends, ignoring case, neither in RUNNING
  nor in SUCCESS, \<open>execute\<close> makes no cancel call and does not return early: after the
  lookup and the line logging the job found, its next event is the first call of the
  submission. From there the run is the run of the same client with a lookup \<open>f\<close> that
  finds no job (and leaves the remote system as the lookup that found one does): same
  result, same final state of the remote system, same \<^verbatim>\<open>self.job_id\<close>, same events
  after the lookup.
\<close>

theorem failed_job_resubmitted:
  assumes find: "find_materialization_job h (workspace self) (feature_view self) (online self)
      (offline self) (start_time self) (end_time self)
      (if df_generator self \<noteq> None then ''ingest'' else ''batch'') (client s) = (Inr (Some j), c1)"
    and not_running: "\<not> ends_ignoring_case (job_state j) ''RUNNING''"
    and not_success: "\<not> ends_ignoring_case (job_state j) ''SUCCESS''"
    and no_job: "f (workspace self) (feature_view self) (online self)
      (offline self) (start_time self) (end_time self)
      (if df_generator self \<noteq> None then ''ingest'' else ''batch'') (client s) = (Inr None, c1)"
  shows "(\<forall>e\<in>set (new_events s (snd (execute fuel self h s))). kind_of e \<noteq> K_cancel) \<and>
    take 2 (new_events s (snd (execute fuel self h s))) =
      [Find_job (workspace self) (feature_view self) (online self) (offline self)
         (start_time self) (end_time self)
         (if df_generator self \<noteq> None then ''ingest'' else ''batch'') (Inr (Some j)),
       Log (Existing_job_found j)] \<and>
    submission_event (new_events s (snd (execute fuel self h s)) ! 2) \<and>
    fst (execute fuel self h s) = fst (execute fuel self (h\<lparr>find_materialization_job := f\<rparr>) s) \<and>
    client (snd (execute fuel self h s))
      = client (snd (execute fuel self (h\<lparr>find_materialization_job := f\<rparr>) s)) \<and>
    job_id (snd (execute fuel self h s))
      = job_id (snd (execute fuel self (h\<lparr>find_materialization_job := f\<rparr>) s)) \<and>
    drop 2 (new_events s (snd (execute fuel self h s))) =
      drop 1 (new_events s (snd (execute fuel self (h\<lparr>find_materialization_job := f\<rparr>) s)))"
proof -
  let ?jt = "if df_generator self \<noteq> None then ''ingest'' else ''batch''"
  let ?F = "Find_job (workspace self) (feature_view self) (online self) (offline self)
         (start_time self) (end_time self) ?jt"
  let ?K = "and_then (submission self h) (poll_to_terminal fuel self h)"
  let ?h' = "h\<lparr>find_materialization_job := f\<rparr>"
  let ?sC = "s\<lparr>client := c1\<rparr>"
  let ?pre = "[?F (Inr (Some j)), Log (Existing_job_found j)]"
  have nr: "\<not> running_lower (job_state j)" and ns: "\<not> success_lower (job_state j)"
    using not_running not_success by (simp_all add: running_lower_iff success_lower_iff)
  have "lookup_and_decide fuel self h s = (Returns True, ?sC\<lparr>trace := trace s @ ?pre\<rparr>)"
    using find nr ns
    by (simp add: lookup_and_decide_def existing_job_def call_def and_then_def logging_info_def
        emit_def)
  then have A: "execute fuel self h s = ?K (?sC\<lparr>trace := trace s @ ?pre\<rparr>)"
    by (rule execute_from_decision)
  have "lookup_and_decide fuel self ?h' s
      = (Returns True, ?sC\<lparr>trace := trace s @ [?F (Inr None)]\<rparr>)"
    using no_job
    by (simp add: lookup_and_decide_def existing_job_def call_def and_then_def emit_def)
  then have "execute fuel self ?h' s
      = and_then (submission self ?h') (poll_to_terminal fuel self ?h')
          (?sC\<lparr>trace := trace s @ [?F (Inr None)]\<rparr>)"
    by (rule execute_from_decision)
  then have B: "execute fuel self ?h' s = ?K (?sC\<lparr>trace := trace s @ [?F (Inr None)]\<rparr>)"
    by simp
  obtain evs where evs: "trace (snd (?K ?sC)) = trace ?sC @ evs"
      "\<And>tr. ?K (?sC\<lparr>trace := tr\<rparr>) = (fst (?K ?sC), (snd (?K ?sC))\<lparr>trace := tr @ evs\<rparr>)"
    using trace_blind_submit_and_poll [of self h fuel] unfolding trace_blind_def by blast
  obtain e rest where first: "evs = e # rest" "submission_event e"
      "\<forall>x\<in>set (e # rest). kind_of x \<noteq> K_cancel"
    using submit_and_poll_trace [of self h fuel ?sC] evs(1) by auto
  have A': "execute fuel self h s = (fst (?K ?sC), (snd (?K ?sC))\<lparr>trace := trace s @ ?pre @ evs\<rparr>)"
    using A evs(2) [of "trace s @ ?pre"] by simp
  have B': "execute fuel self ?h' s
      = (fst (?K ?sC), (snd (?K ?sC))\<lparr>trace := trace s @ [?F (Inr None)] @ evs\<rparr>)"
    using B evs(2) [of "trace s @ [?F (Inr None)]"] by simp
  have nA: "new_events s (snd (execute fuel self h s)) = ?pre @ evs"
    unfolding A' by (simp add: new_events_def)
  have nB: "new_events s (snd (execute fuel self ?h' s)) = [?F (Inr None)] @ evs"
    unfolding B' by (simp add: new_events_def)
  show ?thesis
    unfolding nA nB using first by (simp add: A' B')
qed

theorem failed_job_resubmitted_witness:
  "\<not> ends_ignoring_case ''ERROR'' ''RUNNING'' \<and> \<not> ends_ignoring_case ''ERROR'' ''SUCCESS'' \<and>
   list_all (\<lambda>e. kind_of e \<noteq> K_cancel)
     (new_events (fresh 0)
        (snd (execute 2 (batch_operator False)
           (stub (existing (job_in ''old'' ''ERROR'' None)) (Inr ())
              (answers [Inr (job_in ''new'' ''SUCCESS'' None)]))
           (fresh 0)))) \<and>
   submission_event
     (new_events (fresh 0)
        (snd (execute 2 (batch_operator False)
           (stub (existing (job_in ''old'' ''ERROR'' None)) (Inr ())
              (answers [Inr (job_in ''new'' ''SUCCESS'' None)]))
           (fresh 0))) ! 2) \<and>
   fst (execute 2 (batch_operator False)
          (stub (existing (job_in ''old'' ''ERROR'' None)) (Inr ())
             (answers [Inr (job_in ''new'' ''SUCCESS'' None)]))
          (fresh 0))
   = fst (execute 2 (batch_operator False)
          ((stub (existing (job_in ''old'' ''ERROR'' None)) (Inr ())
             (answers [Inr (job_in ''new'' ''SUCCESS'' None)]))
           \<lparr>find_materialization_job :=
              find_materialization_job
                (stub no_job (Inr ()) (answers [Inr (job_in ''new'' ''SUCCESS'' None)]))\<rparr>)
          (fresh 0)) \<and>
   drop 2 (new_events (fresh 0)
        (snd (execute 2 (batch_operator False)
           (stub (existing (job_in ''old'' ''ERROR'' None)) (Inr ())
              (answers [Inr (job_in ''new'' ''SUCCESS'' None)]))
           (fresh 0))))
   = drop 1 (new_events (fresh 0)
        (snd (execute 2 (batch_operator False)
           ((stub (existing (job_in ''old'' ''ERROR'' None)) (Inr ())
              (answers [Inr (job_in ''new'' ''SUCCESS'' None)]))
            \<lparr>find_materialization_job :=
               find_materialization_job
                 (stub no_job (Inr ()) (answers [Inr (job_in ''new'' ''SUCCESS'' None)]))\<rparr>)
           (fresh 0)))) \<and>
   execute 2 (batch_operator False)
     (stub (existing (job_in ''old'' ''ERROR'' None)) (Inr ())
        (answers [Inr (job_in ''new'' ''SUCCESS'' None)]))
     (fresh 0)
   = (Returns (),
      \<lparr>client = 1,
       trace = [Find_job ''prod'' ''fv'' True False ''2022-01-01'' ''2022-01-02'' ''batch''
                  (Inr (Some (job_in ''old'' ''ERROR'' None))),
                Log (Existing_job_found (job_in ''old'' ''ERROR'' None)),
                Submit_job ''prod'' ''fv'' True False ''2022-01-01'' ''2022-01-02'' False False
                  (Inr new_job),
                Get_job ''prod'' ''fv'' ''new'' (Inr (job_in ''new'' ''SUCCESS'' None))],
       job_id = Some ''new''\<rparr>)"
proof -
  let ?self = "batch_operator False"
  let ?j = "job_in ''old'' ''ERROR'' None"
  let ?h = "stub (existing ?j) (Inr ()) (answers [Inr (job_in ''new'' ''SUCCESS'' None)])"
  let ?f = "find_materialization_job
              (stub no_job (Inr ()) (answers [Inr (job_in ''new'' ''SUCCESS'' None)]))"
  have a: "find_materialization_job ?h (workspace ?self) (feature_view ?self) (online ?self)
      (offline ?self) (start_time ?self) (end_time ?self)
      (if df_generator ?self \<noteq> None then ''ingest'' else ''batch'') (client (fresh 0))
      = (Inr (Some ?j), 0)"
    by (simp add: stub_def existing_def fresh_def)
  have b: "\<not> ends_ignoring_case (job_state ?j) ''RUNNING''"
    by code_simp
  have c: "\<not> ends_ignoring_case (job_state ?j) ''SUCCESS''"
    by code_simp
  have d: "?f (workspace ?self) (feature_view ?self) (online ?self)
      (offline ?self) (start_time ?self) (end_time ?self)
      (if df_generator ?self \<noteq> None then ''ingest'' else ''batch'') (client (fresh 0))
      = (Inr None, 0)"
    by (simp add: stub_def no_job_def)
  have run: "execute 2 ?self ?h (fresh 0)
   = (Returns (),
      \<lparr>client = 1,
       trace = [Find_job ''prod'' ''fv'' True False ''2022-01-01'' ''2022-01-02'' ''batch''
                  (Inr (Some ?j)),
                Log (Existing_job_found ?j),
                Submit_job ''prod'' ''fv'' True False ''2022-01-01'' ''2022-01-02'' False False
                  (Inr new_job),
                Get_job ''prod'' ''fv'' ''new'' (Inr (job_in ''new'' ''SUCCESS'' None))],
       job_id = Some ''new''\<rparr>)"
    by code_simp
  have b': "\<not> ends_ignoring_case ''ERROR'' ''RUNNING''" by code_simp
  have c': "\<not> ends_ignoring_case ''ERROR'' ''SUCCESS''" by code_simp
  note w = failed_job_resubmitted [where h = "?h" and f = "?f" and fuel = 2, OF a b c d]
  have concl:
    "list_all (\<lambda>e. kind_of e \<noteq> K_cancel)
       (new_events (fresh 0) (snd (execute 2 ?self ?h (fresh 0)))) \<and>
     submission_event (new_events (fresh 0) (snd (execute 2 ?self ?h (fresh 0))) ! 2) \<and>
     fst (execute 2 ?self ?h (fresh 0))
       = fst (execute 2 ?self (?h\<lparr>find_materialization_job := ?f\<rparr>) (fresh 0)) \<and>
     drop 2 (new_events (fresh 0) (snd (execute 2 ?self ?h (fresh 0))))
       = drop 1 (new_events (fresh 0)
           (snd (execute 2 ?self (?h\<lparr>find_materialization_job := ?f\<rparr>) (fresh 0))))"
    using w by (simp add: list_all_iff)
  show ?thesis
    using b' c' concl run by blast
qed

section \<open>The submission\<close>

text \<open>
  C9. When no \<^verbatim>\<open>df_generator\<close> is given and control reaches line 120, the calls of the
  submission made in the whole run are exactly one: \<^verbatim>\<open>submit_materialization_job\<close> with
  the operator's workspace, feature view, online and offline flags, start and end time,
  with \<^verbatim>\<open>allow_overwrite\<close> the operator's flag and \<^verbatim>\<open>tecton_managed_retries\<close> false.
\<close>

theorem direct_submission:
  assumes direct: "df_generator self = None"
    and reach: "lookup_and_decide fuel self h s = (Returns True, s1)"
  shows "filter submission_event (new_events s (snd (execute fuel self h s))) =
    [Submit_job (workspace self) (feature_view self) (online self) (offline self)
       (start_time self) (end_time self) (allow_overwrite self) False
       (fst (submit_materialization_job h (workspace self) (feature_view self) (online self)
               (offline self) (start_time self) (end_time self) (allow_overwrite self) False
               (client s1)))]"
  unfolding execute_submission_events [OF reach]
  using direct
  by (simp add: submission_def call_def and_then_def new_events_def emit_def
      split: prod.splits sum.splits)

theorem direct_submission_witness:
  "lookup_and_decide 2 (batch_operator True)
     (stub no_job (Inr ()) (answers [Inr (job_in ''new'' ''SUCCESS'' None)])) (fresh 0)
   = (Returns True,
      \<lparr>client = 0,
       trace = [Find_job ''prod'' ''fv'' True False ''2022-01-01'' ''2022-01-02'' ''batch''
                  (Inr None)],
       job_id = None\<rparr>) \<and>
   filter submission_event
     (new_events (fresh 0)
        (snd (execute 2 (batch_operator True)
           (stub no_job (Inr ()) (answers [Inr (job_in ''new'' ''SUCCESS'' None)])) (fresh 0))))
   = [Submit_job ''prod'' ''fv'' True False ''2022-01-01'' ''2022-01-02'' True False
        (Inr new_job)]"
proof -
  let ?self = "batch_operator True"
  let ?h = "stub no_job (Inr ()) (answers [Inr (job_in ''new'' ''SUCCESS'' None)])"
  have a: "df_generator ?self = None"
    by (simp add: batch_operator_def)
  have b: "lookup_and_decide 2 ?self ?h (fresh 0)
   = (Returns True,
      \<lparr>client = 0,
       trace = [Find_job ''prod'' ''fv'' True False ''2022-01-01'' ''2022-01-02'' ''batch''
                  (Inr None)],
       job_id = None\<rparr>)"
    by (simp add: lookup_and_decide_def existing_job_def call_def and_then_def emit_def
        stub_def no_job_def batch_operator_def fresh_def)
  show ?thesis
    using b direct_submission [OF a b]
    by (simp add: batch_operator_def stub_def)
qed

text \<open>
  C6. When control reaches line 120: the run makes calls of the ingest path exactly when
  a \<^verbatim>\<open>df_generator\<close> is given. With one, the calls of the submission are, in this
  order, the staging call, the generator, the upload and the ingestion, stopping at the
  first that raises; and when none of the first three raises they are exactly: the
  staging call for the feature view and workspace, the generator, the upload of the
  table the generator returned, unchanged, to the signed URL the staging call returned,
  and the ingestion of the path the staging call returned.
\<close>

theorem ingest_path_wiring:
  assumes reach: "lookup_and_decide fuel self h s = (Returns True, s1)"
  shows "(df_generator self \<noteq> None \<longleftrightarrow>
            list_ex ingest_path_event (new_events s (snd (execute fuel self h s)))) \<and>
    (df_generator self \<noteq> None \<longrightarrow>
       map kind_of (filter submission_event (new_events s (snd (execute fuel self h s))))
         \<in> {[K_stage], [K_stage, K_generate], [K_stage, K_generate, K_upload],
            [K_stage, K_generate, K_upload, K_ingest]}) \<and>
    (\<forall>gen info df r c1 c2 c3 c4.
       df_generator self = Some gen \<and>
       get_dataframe_info h (feature_view self) (workspace self) (client s1) = (Inr info, c1) \<and>
       gen c1 = (Inr df, c2) \<and>
       upload_df_pandas h (signed_url_for_df_upload info) df c2 = (Inr (), c3) \<and>
       ingest_dataframe h (feature_view self) (df_path info) (workspace self) c3 = (r, c4)
       \<longrightarrow> filter submission_event (new_events s (snd (execute fuel self h s))) =
             [Get_dataframe_info (feature_view self) (workspace self) (Inr info),
              Df_generator (Inr df),
              Upload_df (signed_url_for_df_upload info) df (Inr ()),
              Ingest_dataframe (feature_view self) (df_path info) (workspace self) r])"
proof -
  let ?E = "filter submission_event (new_events s (snd (execute fuel self h s)))"
  have ex: "list_ex ingest_path_event (new_events s (snd (execute fuel self h s)))
      \<longleftrightarrow> list_ex ingest_path_event ?E"
    by (auto simp: list_ex_iff submission_event_def)
  have E: "?E = new_events s1 (snd (submission self h s1))"
    by (rule execute_submission_events [OF reach])
  have a: "df_generator self \<noteq> None \<longleftrightarrow> list_ex ingest_path_event ?E"
    unfolding E
    by (cases "df_generator self")
      (auto simp: submission_def ingest_feature_table_with_pandas_df_def call_def and_then_def
        new_events_def emit_def ingest_path_event_def split: prod.splits sum.splits)
  have b: "df_generator self \<noteq> None \<longrightarrow> map kind_of ?E
         \<in> {[K_stage], [K_stage, K_generate], [K_stage, K_generate, K_upload],
            [K_stage, K_generate, K_upload, K_ingest]}"
    unfolding E
    by (cases "df_generator self")
      (auto simp: submission_def ingest_feature_table_with_pandas_df_def call_def and_then_def
        new_events_def emit_def split: prod.splits sum.splits)
  have c: "\<forall>gen info df r c1 c2 c3 c4.
       df_generator self = Some gen \<and>
       get_dataframe_info h (feature_view self) (workspace self) (client s1) = (Inr info, c1) \<and>
       gen c1 = (Inr df, c2) \<and>
       upload_df_pandas h (signed_url_for_df_upload info) df c2 = (Inr (), c3) \<and>
       ingest_dataframe h (feature_view self) (df_path info) (workspace self) c3 = (r, c4)
       \<longrightarrow> ?E =
             [Get_dataframe_info (feature_view self) (workspace self) (Inr info),
              Df_generator (Inr df),
              Upload_df (signed_url_for_df_upload info) df (Inr ()),
              Ingest_dataframe (feature_view self) (df_path info) (workspace self) r]"
    unfolding E
    by (auto simp: submission_def ingest_feature_table_with_pandas_df_def call_def and_then_def
        new_events_def emit_def split: prod.splits sum.splits)
  show ?thesis
    using a b c unfolding ex by blast
qed

theorem ingest_path_wiring_witness:
  "lookup_and_decide 2 ingest_operator
     (stub no_job (Inr ()) (answers [Inr (job_in ''new'' ''SUCCESS'' None)])) (fresh 0)
   = (Returns True,
      \<lparr>client = 0,
       trace = [Find_job ''prod'' ''fv'' True False ''2022-01-01'' ''2022-01-02'' ''ingest''
                  (Inr None)],
       job_id = None\<rparr>) \<and>
   list_ex ingest_path_event
     (new_events (fresh 0)
        (snd (execute 2 ingest_operator
           (stub no_job (Inr ()) (answers [Inr (job_in ''new'' ''SUCCESS'' None)])) (fresh 0)))) \<and>
   filter submission_event
     (new_events (fresh 0)
        (snd (execute 2 ingest_operator
           (stub no_job (Inr ()) (answers [Inr (job_in ''new'' ''SUCCESS'' None)])) (fresh 0))))
   = [Get_dataframe_info ''fv'' ''prod''
        (Inr \<lparr>df_path = ''s3://bucket/df'', signed_url_for_df_upload = ''https://signed''\<rparr>),
      Df_generator (Inr ''table''),
      Upload_df ''https://signed'' ''table'' (Inr ()),
      Ingest_dataframe ''fv'' ''s3://bucket/df'' ''prod'' (Inr new_job)]"
proof -
  let ?self = "ingest_operator"
  let ?h = "stub no_job (Inr ()) (answers [Inr (job_in ''new'' ''SUCCESS'' None)])"
  let ?info = "\<lparr>df_path = ''s3://bucket/df'', signed_url_for_df_upload = ''https://signed''\<rparr>"
  have reach: "lookup_and_decide 2 ?self ?h (fresh 0)
   = (Returns True,
      \<lparr>client = 0,
       trace = [Find_job ''prod'' ''fv'' True False ''2022-01-01'' ''2022-01-02'' ''ingest''
                  (Inr None)],
       job_id = None\<rparr>)"
    by (simp add: lookup_and_decide_def existing_job_def call_def and_then_def emit_def
        stub_def no_job_def ingest_operator_def fresh_def)
  have gen: "df_generator ?self = Some table_generator"
    by (simp add: ingest_operator_def)
  have calls: "df_generator ?self = Some table_generator \<and>
       get_dataframe_info ?h (feature_view ?self) (workspace ?self) 0 = (Inr ?info, 0) \<and>
       table_generator 0 = (Inr ''table'', 0) \<and>
       upload_df_pandas ?h (signed_url_for_df_upload ?info) ''table'' 0 = (Inr (), 0) \<and>
       ingest_dataframe ?h (feature_view ?self) (df_path ?info) (workspace ?self) 0
         = (Inr new_job, 0)"
    by (simp add: ingest_operator_def stub_def table_generator_def)
  note w = ingest_path_wiring [OF reach]
  have 1: "list_ex ingest_path_event (new_events (fresh 0) (snd (execute 2 ?self ?h (fresh 0))))"
    using w gen by simp
  have 2: "filter submission_event (new_events (fresh 0) (snd (execute 2 ?self ?h (fresh 0))))
    = [Get_dataframe_info (feature_view ?self) (workspace ?self) (Inr ?info),
       Df_generator (Inr ''table''),
       Upload_df (signed_url_for_df_upload ?info) ''table'' (Inr ()),
       Ingest_dataframe (feature_view ?self) (df_path ?info) (workspace ?self) (Inr new_job)]"
    using w calls by simp
  show ?thesis
    using reach 1 2 by (simp add: ingest_operator_def)
qed

section \<open>The polling loop, given the client's answers\<close>

text \<open>
  Let the fetches of the submitted job return the records \<open>jr 0\<close>, \<open>jr 1\<close>, ... in
  turn, the first \<open>N\<close> of them passing the test for a running job of line 137, with
  attempts absent or non-empty, and \<open>jr N\<close> not passing it. Then with fuel at least
  \<open>N\<close> the run makes \<open>N + 1\<close> fetches of the job and \<open>N\<close> sleeps of 60, the last
  record fetched is \<open>jr N\<close>, and the run ends as lines 150-155 decide on it: it returns
  if \<open>jr N\<close> passes the test for success of line 150, and otherwise raises the exception
  of lines 153-155 with the state of \<open>jr N\<close> and \<open>jr N\<close> itself.
\<close>

lemma log_progress_returns:
  "attempts j \<noteq> Some [] \<Longrightarrow> \<exists>m. log_progress j s = (Returns (), emit (Log m) s)"
  by (auto simp: log_progress_def logging_info_def split: option.splits)

lemma poll_reaches:
  assumes "\<forall>k<N. get_materialization_job h (workspace self) (feature_view self) jid (c k)
              = (Inr (jr (Suc k)), c (Suc k))"
    and "\<forall>k<N. running_upper (job_state (jr k)) \<and> attempts (jr k) \<noteq> Some []"
    and "\<not> running_upper (job_state (jr N))"
    and "client s = c 0" and "N \<le> fuel"
  shows "\<exists>evs. poll fuel self h jid (jr 0) s
             = final_result (jr N) (s\<lparr>client := c N, trace := trace s @ evs\<rparr>) \<and>
           length (filter (\<lambda>e. kind_of e = K_get) evs) = N \<and>
           filter (\<lambda>e. kind_of e = K_sleep) evs = replicate N (Sleep 60) \<and>
           (if N = 0 then evs = []
            else evs \<noteq> [] \<and>
                 last evs = Get_job (workspace self) (feature_view self) jid (Inr (jr N)))"
  using assms
proof (induction N arbitrary: fuel s c jr)
  case 0
  have "poll fuel self h jid (jr 0) s = final_result (jr 0) s"
    using "0.prems"(3) by (simp add: poll_not_running)
  moreover have "s = s\<lparr>client := c 0, trace := trace s @ []\<rparr>"
    using "0.prems"(4) by simp
  ultimately show ?case
    by (intro exI [of _ "[]"]) simp
next
  case (Suc N)
  obtain m where fuel: "fuel = Suc m" and m: "N \<le> m"
    using Suc.prems(5) by (cases fuel) auto
  have run: "running_upper (job_state (jr 0))" and att: "attempts (jr 0) \<noteq> Some []"
    using Suc.prems(2) by auto
  obtain msg where lp: "log_progress (jr 0) s = (Returns (), emit (Log msg) s)"
    using log_progress_returns [OF att] by blast
  have get: "get_materialization_job h (workspace self) (feature_view self) jid
      (client (emit (Log msg) s)) = (Inr (jr 1), c 1)"
    using Suc.prems(1,4) by simp
  let ?g = "Get_job (workspace self) (feature_view self) jid (Inr (jr 1))"
  let ?s3 = "emit ?g ((emit (Sleep 60) (emit (Log msg) s))\<lparr>client := c 1\<rparr>)"
  have step: "poll fuel self h jid (jr 0) s = poll m self h jid (jr 1) ?s3"
    unfolding fuel by (rule poll_get_returns [OF run lp get])
  have p1: "\<forall>k<N. get_materialization_job h (workspace self) (feature_view self) jid (c (Suc k))
              = (Inr (jr (Suc (Suc k))), c (Suc (Suc k)))"
    using Suc.prems(1) by simp
  have p2: "\<forall>k<N. running_upper (job_state (jr (Suc k))) \<and> attempts (jr (Suc k)) \<noteq> Some []"
    using Suc.prems(2) by simp
  have p4: "client ?s3 = c (Suc 0)"
    by simp
  have "\<exists>evs. poll m self h jid (jr (Suc 0)) ?s3
             = final_result (jr (Suc N)) (?s3\<lparr>client := c (Suc N), trace := trace ?s3 @ evs\<rparr>) \<and>
           length (filter (\<lambda>e. kind_of e = K_get) evs) = N \<and>
           filter (\<lambda>e. kind_of e = K_sleep) evs = replicate N (Sleep 60) \<and>
           (if N = 0 then evs = []
            else evs \<noteq> [] \<and>
                 last evs = Get_job (workspace self) (feature_view self) jid (Inr (jr (Suc N))))"
    by (rule Suc.IH [where c = "\<lambda>k. c (Suc k)" and jr = "\<lambda>k. jr (Suc k)",
          OF p1 p2 Suc.prems(3) p4 m])
  then obtain evs where evs:
    "poll m self h jid (jr 1) ?s3
       = final_result (jr (Suc N)) (?s3\<lparr>client := c (Suc N), trace := trace ?s3 @ evs\<rparr>)"
    "length (filter (\<lambda>e. kind_of e = K_get) evs) = N"
    "filter (\<lambda>e. kind_of e = K_sleep) evs = replicate N (Sleep 60)"
    "if N = 0 then evs = []
     else evs \<noteq> [] \<and>
          last evs = Get_job (workspace self) (feature_view self) jid (Inr (jr (Suc N)))"
    by auto
  let ?evs = "[Log msg, Sleep 60, ?g] @ evs"
  have "poll fuel self h jid (jr 0) s
      = final_result (jr (Suc N)) (s\<lparr>client := c (Suc N), trace := trace s @ ?evs\<rparr>)"
    unfolding step evs(1) by (simp add: emit_def)
  moreover have "length (filter (\<lambda>e. kind_of e = K_get) ?evs) = Suc N"
    using evs(2) by simp
  moreover have "filter (\<lambda>e. kind_of e = K_sleep) ?evs = replicate (Suc N) (Sleep 60)"
    using evs(3) by simp
  moreover have "?evs \<noteq> [] \<and>
      last ?evs = Get_job (workspace self) (feature_view self) jid (Inr (jr (Suc N)))"
    using evs(4) by (cases "N = 0") simp_all
  ultimately show ?case
    by (intro exI [of _ ?evs]) simp
qed

lemma execute_reaches:
  assumes sub: "up_to_submission fuel self h s = (Returns (Some jid), s2)"
    and fetches: "\<forall>k\<le>N. get_materialization_job h (workspace self) (feature_view self) jid (c k)
              = (Inr (jr k), c (Suc k))"
    and running: "\<forall>k<N. running_upper (job_state (jr k)) \<and> attempts (jr k) \<noteq> Some []"
    and final: "\<not> running_upper (job_state (jr N))"
    and start: "client s2 = c 0" and fuel: "N \<le> fuel"
  shows "\<exists>evs. execute fuel self h s
             = final_result (jr N) (s2\<lparr>client := c (Suc N), trace := trace s2 @ evs\<rparr>) \<and>
           length (filter (\<lambda>e. kind_of e = K_get) evs) = Suc N \<and>
           filter (\<lambda>e. kind_of e = K_sleep) evs = replicate N (Sleep 60) \<and>
           last evs = Get_job (workspace self) (feature_view self) jid (Inr (jr N))"
proof -
  let ?g = "Get_job (workspace self) (feature_view self) jid (Inr (jr 0))"
  let ?s3 = "emit ?g (s2\<lparr>client := c 1\<rparr>)"
  have "get_materialization_job h (workspace self) (feature_view self) jid (client s2)
      = (Inr (jr 0), c 1)"
    using fetches start by simp
  then have step: "execute fuel self h s = poll fuel self h jid (jr 0) ?s3"
    by (simp add: execute_after_submission [OF sub] poll_to_terminal_def call_def and_then_def)
  have p1: "\<forall>k<N. get_materialization_job h (workspace self) (feature_view self) jid (c (Suc k))
              = (Inr (jr (Suc k)), c (Suc (Suc k)))"
    using fetches by simp
  have p4: "client ?s3 = c (Suc 0)"
    by simp
  have "\<exists>evs. poll fuel self h jid (jr 0) ?s3
             = final_result (jr N) (?s3\<lparr>client := c (Suc N), trace := trace ?s3 @ evs\<rparr>) \<and>
           length (filter (\<lambda>e. kind_of e = K_get) evs) = N \<and>
           filter (\<lambda>e. kind_of e = K_sleep) evs = replicate N (Sleep 60) \<and>
           (if N = 0 then evs = []
            else evs \<noteq> [] \<and>
                 last evs = Get_job (workspace self) (feature_view self) jid (Inr (jr N)))"
    by (rule poll_reaches [where c = "\<lambda>k. c (Suc k)", OF p1 running final p4 fuel])
  then obtain evs where evs:
    "poll fuel self h jid (jr 0) ?s3
       = final_result (jr N) (?s3\<lparr>client := c (Suc N), trace := trace ?s3 @ evs\<rparr>)"
    "length (filter (\<lambda>e. kind_of e = K_get) evs) = N"
    "filter (\<lambda>e. kind_of e = K_sleep) evs = replicate N (Sleep 60)"
    "if N = 0 then evs = []
     else evs \<noteq> [] \<and>
          last evs = Get_job (workspace self) (feature_view self) jid (Inr (jr N))"
    by auto
  have "execute fuel self h s
      = final_result (jr N) (s2\<lparr>client := c (Suc N), trace := trace s2 @ (?g # evs)\<rparr>)"
    unfolding step evs(1) by (simp add: emit_def)
  moreover have "last (?g # evs) = Get_job (workspace self) (feature_view self) jid (Inr (jr N))"
    using evs(4) by (cases "N = 0") simp_all
  ultimately show ?thesis
    using evs(2,3) by (intro exI [of _ "?g # evs"]) simp
qed

lemma execute_converges:
  assumes sub: "up_to_submission fuel self h s = (Returns (Some jid), s2)"
    and fetches: "\<forall>k\<le>N. get_materialization_job h (workspace self) (feature_view self) jid (c k)
              = (Inr (jr k), c (Suc k))"
    and running: "\<forall>k<N. running_upper (job_state (jr k)) \<and> attempts (jr k) \<noteq> Some []"
    and success: "success_upper (job_state (jr N))"
    and start: "client s2 = c 0" and fuel: "N \<le> fuel"
  shows "\<exists>evs. execute fuel self h s
             = (Returns (), s2\<lparr>client := c (Suc N), trace := trace s2 @ evs\<rparr>) \<and>
           length (filter (\<lambda>e. kind_of e = K_get) evs) = Suc N \<and>
           filter (\<lambda>e. kind_of e = K_sleep) evs = replicate N (Sleep 60)"
proof -
  have "\<not> running_upper (job_state (jr N))"
    using success not_running_upper_and_success_upper by blast
  from execute_reaches [OF sub fetches running this start fuel] show ?thesis
    using success by (auto simp: final_result_def)
qed

lemma execute_fails:
  assumes sub: "up_to_submission fuel self h s = (Returns (Some jid), s2)"
    and fetches: "\<forall>k\<le>N. get_materialization_job h (workspace self) (feature_view self) jid (c k)
              = (Inr (jr k), c (Suc k))"
    and running: "\<forall>k<N. running_upper (job_state (jr k)) \<and> attempts (jr k) \<noteq> Some []"
    and not_running: "\<not> running_upper (job_state (jr N))"
    and not_success: "\<not> success_upper (job_state (jr N))"
    and start: "client s2 = c 0" and fuel: "N \<le> fuel"
  shows "\<exists>evs. execute fuel self h s
             = (Raises (Final_state_exception (job_state (jr N)) (jr N)),
                s2\<lparr>client := c (Suc N), trace := trace s2 @ evs\<rparr>) \<and>
           length (filter (\<lambda>e. kind_of e = K_get) evs) = Suc N \<and>
           filter (\<lambda>e. kind_of e = K_sleep) evs = replicate N (Sleep 60) \<and>
           last evs = Get_job (workspace self) (feature_view self) jid (Inr (jr N))"
  using execute_reaches [OF sub fetches running not_running start fuel] not_success
  by (auto simp: final_result_def)

section \<open>Failure of the polled job\<close>


end
